theory Spec2Isabelle
  imports Main "HOL-Library.Word"
begin

unbundle bit_operations_syntax

section \<open>Machine types, errors and panics\<close>

type_synonym u8 = "8 word"
type_synonym u16 = "16 word"
type_synonym u32 = "32 word"

text \<open>
  Go's \<open>time.Duration\<close> is a count of nanoseconds; the two units the source multiplies by.
\<close>

type_synonym Duration = int

definition Millisecond :: Duration where
  "Millisecond = 1000000"

definition Second :: Duration where
  "Second = 1000000000"

text \<open>
  An \<open>errors.Error\<close> of github.com/karlmutch/errors as the source uses it: a message
  (\<open>errors.New\<close>, or the text of the wrapped Go error for \<open>errors.Wrap\<close>) and the
  key/value annotations added by \<open>With\<close>, in the order they were added.
\<close>

record error =
  err_msg :: string
  err_ctx :: "(string \<times> string) list"

definition errors_New :: "string \<Rightarrow> error" where
  "errors_New s = \<lparr>err_msg = s, err_ctx = []\<rparr>"

definition errors_Wrap :: "string \<Rightarrow> error" where
  "errors_Wrap errGo = \<lparr>err_msg = errGo, err_ctx = []\<rparr>"

definition With :: "string \<Rightarrow> string \<Rightarrow> error \<Rightarrow> error" where
  "With k v e = e\<lparr>err_ctx := err_ctx e @ [(k, v)]\<rparr>"

text \<open>The run-time panics of Go that the modelled statements can raise.\<close>

datatype panic = IndexOutOfRange | SendOnClosedChannel | CloseOfNilChannel | CloseOfClosedChannel

section \<open>Colours of a strand's pixel buffer\<close>

text \<open>
  Modelled from the spec: the element type of the slice returned by
  \<open>devices.GetStrandData\<close>, whose declaration is not among the sources. The spec's
  ChannelBuffer element has four components (red, green, blue, alpha) and its example
  (255,10,200,0) has 8-bit components: this is \<open>color.RGBA\<close> of Go's image/color, and
  \<open>RGBA\<close> is that type's method, which widens each 8-bit component \<open>c\<close> to 16 bits
  inside a \<open>uint32\<close> by \<open>c |= c << 8\<close>.
\<close>

record color_RGBA =
  red :: u8
  green :: u8
  blue :: u8
  alpha :: u8

definition widen :: "u8 \<Rightarrow> u32" where
  "widen c = (ucast c) OR (push_bit 8 (ucast c))"

definition RGBA :: "color_RGBA \<Rightarrow> u32 \<times> u32 \<times> u32 \<times> u32" where
  "RGBA c = (widen (red c), widen (green c), widen (blue c), widen (alpha c))"

section \<open>The device message\<close>

text \<open>
  \<open>opc.Message\<close> of github.com/kellydunn/go-opc through the three calls the source makes:
  \<open>NewMessage\<close> fixes the channel, \<open>SetLength\<close> stores the 16-bit length and allocates
  that many data bytes, \<open>SetPixelColor\<close> writes the three bytes of pixel \<open>pixel\<close> at
  index \<open>3 * pixel\<close>. A write outside the data slice is Go's index-out-of-range panic.
\<close>

record message =
  channel :: u8
  command :: u8
  msg_len :: u16
  data :: "u8 list"

definition NewMessage :: "u8 \<Rightarrow> message" where
  "NewMessage ch = \<lparr>channel = ch, command = 0, msg_len = 0, data = []\<rparr>"

definition SetLength :: "u16 \<Rightarrow> message \<Rightarrow> message" where
  "SetLength len m = m\<lparr>msg_len := len, data := replicate (unat len) 0\<rparr>"

definition SetPixelColor :: "nat \<Rightarrow> u8 \<Rightarrow> u8 \<Rightarrow> u8 \<Rightarrow> message \<Rightarrow> panic + message" where
  "SetPixelColor pixel r g b m =
     (let index = 3 * pixel in
      if index + 2 < length (data m)
      then Inr (m\<lparr>data := (data m)[index := r, index + 1 := g, index + 2 := b]\<rparr>)
      else Inl IndexOutOfRange)"

text \<open>
  Lines 197 to 204 of \<open>RunLoop\<close> for one element, given the four \<open>uint32\<close> values its
  \<open>RGBA()\<close> call returned: a zero alpha zeroes the three colours, and \<open>uint8(...)\<close>
  keeps the low byte of each.
\<close>

definition strand_pixel :: "u32 \<times> u32 \<times> u32 \<times> u32 \<Rightarrow> u8 \<times> u8 \<times> u8" where
  "strand_pixel q =
     (case q of (r, g, b, a) \<Rightarrow>
        (case (if a = 0 then (0, 0, 0) else (r, g, b)) of
           (r', g', b') \<Rightarrow> (ucast r', ucast g', ucast b')))"

text \<open>The loop \<open>for i, rgba := range strandData\<close> of lines 196 to 205, from index \<open>i\<close>.\<close>

fun set_pixels :: "('c \<Rightarrow> u32 \<times> u32 \<times> u32 \<times> u32) \<Rightarrow> nat \<Rightarrow> 'c list \<Rightarrow> message \<Rightarrow> panic + message" where
  "set_pixels rgba i [] m = Inr m"
| "set_pixels rgba i (c # cs) m =
     (case strand_pixel (rgba c) of
        (r, g, b) \<Rightarrow>
          (case SetPixelColor i r g b m of
             Inl p \<Rightarrow> Inl p
           | Inr m' \<Rightarrow> set_pixels rgba (Suc i) cs m'))"

text \<open>Lines 194 to 205: the message prepared for one strand's pixel buffer.\<close>

definition build_message :: "('c \<Rightarrow> u32 \<times> u32 \<times> u32 \<times> u32) \<Rightarrow> 'c list \<Rightarrow> panic + message" where
  "build_message rgba strandData =
     set_pixels rgba 0 strandData
       (SetLength (of_nat (length strandData * 3)) (NewMessage 0))"

text \<open>The three data bytes of pixel \<open>i\<close> of a message.\<close>

definition triple_at :: "message \<Rightarrow> nat \<Rightarrow> u8 \<times> u8 \<times> u8" where
  "triple_at m i = (data m ! (3 * i), data m ! (3 * i + 1), data m ! (3 * i + 2))"

definition pixel_bytes :: "u8 \<times> u8 \<times> u8 \<Rightarrow> u8 list" where
  "pixel_bytes t = (case t of (r, g, b) \<Rightarrow> [r, g, b])"

section \<open>Channels and the selects that offer an error\<close>

text \<open>
  A Go channel as the loops see it: the nil channel, an open one, a closed one. Closing
  a nil or a closed channel panics; sending on a closed one panics.
\<close>

datatype chan_state = NilChan | OpenChan | ClosedChan

text \<open>\<open>close(c)\<close>.\<close>

definition close_chan :: "chan_state \<Rightarrow> panic + chan_state" where
  "close_chan c =
     (case c of
        NilChan \<Rightarrow> Inl CloseOfNilChannel
      | ClosedChan \<Rightarrow> Inl CloseOfClosedChannel
      | OpenChan \<Rightarrow> Inr ClosedChan)"

datatype select_result = Delivered | TimedOut

text \<open>
  The select of lines 83 to 87, 115 to 119 and 227 to 231: a send on the error channel
  against \<open>time.After d\<close>. \<open>ready\<close> is the time after which the channel can take the
  value (a free buffer slot or a waiting receiver), \<open>None\<close> when it never can. A nil
  channel is never ready, a closed one panics at once. The result carries the time the
  select took.
\<close>

definition select_send :: "chan_state \<Rightarrow> Duration option \<Rightarrow> Duration \<Rightarrow> panic + (select_result \<times> Duration)" where
  "select_send ch ready d =
     (case ch of
        ClosedChan \<Rightarrow> Inl SendOnClosedChannel
      | NilChan \<Rightarrow> Inr (TimedOut, d)
      | OpenChan \<Rightarrow>
          (case ready of
             None \<Rightarrow> Inr (TimedOut, d)
           | Some t \<Rightarrow> if t < d then Inr (Delivered, t) else Inr (TimedOut, d)))"

text \<open>Where an error ended up.\<close>

datatype sink_effect = NoReport | OnChannel error | OnStdout error | OnStderr error

text \<open>\<open>sendErr\<close>, lines 223 to 232.\<close>

definition sendErr :: "chan_state \<Rightarrow> Duration option \<Rightarrow> error \<Rightarrow> panic + (sink_effect \<times> Duration)" where
  "sendErr errorC ready err =
     (if errorC = NilChan then Inr (NoReport, 0)
      else
        (case select_send errorC ready (20 * Millisecond) of
           Inl p \<Rightarrow> Inl p
         | Inr (Delivered, t) \<Rightarrow> Inr (OnChannel err, t)
         | Inr (TimedOut, t) \<Rightarrow> Inr (OnStdout err, t)))"

text \<open>
  The select of lines 83 to 87 of \<open>run\<close>, for the connection error \<open>err\<close> of line 81:
  the channel and standard error get the same value.
\<close>

definition run_connect_report :: "chan_state \<Rightarrow> Duration option \<Rightarrow> error \<Rightarrow> panic + (sink_effect \<times> Duration)" where
  "run_connect_report errorC ready err =
     (case select_send errorC ready (100 * Millisecond) of
        Inl p \<Rightarrow> Inl p
      | Inr (Delivered, t) \<Rightarrow> Inr (OnChannel err, t)
      | Inr (TimedOut, t) \<Rightarrow> Inr (OnStderr err, t))"

text \<open>
  The select of lines 115 to 119 of \<open>run\<close>, for the error \<open>err\<close> that \<open>test8LED\<close>
  returned: the channel is offered \<open>err.With("url", server)\<close>, a new value, and standard
  error gets \<open>err\<close> itself, without the url.
\<close>

definition run_render_report :: "chan_state \<Rightarrow> Duration option \<Rightarrow> string \<Rightarrow> error \<Rightarrow> panic + (sink_effect \<times> Duration)" where
  "run_render_report errorC ready server err =
     (case select_send errorC ready (100 * Millisecond) of
        Inl p \<Rightarrow> Inl p
      | Inr (Delivered, t) \<Rightarrow> Inr (OnChannel (With ''url'' server err), t)
      | Inr (TimedOut, t) \<Rightarrow> Inr (OnStderr err, t))"

section \<open>The device connection\<close>

text \<open>
  \<open>FadeCandy\<close> holds the pointer to the go-opc client: \<open>None\<close> is the nil pointer. The
  client itself is a state of type \<open>'t\<close>; its \<open>Connect\<close> and \<open>Send\<close> are parameters that
  return the Go error (\<open>None\<close> for nil) and the client's next state.
\<close>

record 't FadeCandy =
  oc :: "'t option"

text \<open>
  Lines 73 to 88 of \<open>run\<close>: the one connection attempt. The second component is the
  error that is then offered on the error channel. \<open>trace\<close> stands for the text of
  \<open>stack.Trace().TrimRuntime()\<close> at the call.
\<close>

definition run_connect ::
  "'t \<Rightarrow> (string \<Rightarrow> string \<Rightarrow> 't \<Rightarrow> string option \<times> 't) \<Rightarrow> string \<Rightarrow> string \<Rightarrow>
   't FadeCandy \<Rightarrow> 't FadeCandy \<times> error option" where
  "run_connect NewClient Connect trace server fc =
     (let c = (case oc fc of None \<Rightarrow> NewClient | Some c \<Rightarrow> c) in
      case Connect ''tcp'' server c of
        (Some errGo, c') \<Rightarrow>
          (fc\<lparr>oc := None\<rparr>, Some (With ''stack'' trace (With ''url'' server (errors_Wrap errGo))))
      | (None, c') \<Rightarrow> (fc\<lparr>oc := Some c'\<rparr>, None))"

text \<open>\<open>FadeCandy.Send\<close>, lines 128 to 141. The message pointer may be nil (\<open>None\<close>).\<close>

definition Send ::
  "('t \<Rightarrow> message \<Rightarrow> string option \<times> 't) \<Rightarrow> string \<Rightarrow> 't FadeCandy \<Rightarrow> message option \<Rightarrow>
   error option \<times> 't FadeCandy" where
  "Send oc_Send trace fc m =
     (case oc fc of
        None \<Rightarrow> (Some (With ''stack'' trace (errors_New ''fadecandy server not online'')), fc)
      | Some c \<Rightarrow>
          (case m of
             None \<Rightarrow> (Some (With ''stack'' trace (errors_New ''invalid message'')), fc)
           | Some msg \<Rightarrow>
               (case oc_Send c msg of
                  (Some errGo, c') \<Rightarrow>
                    (Some (With ''stack'' trace (errors_Wrap errGo)), fc\<lparr>oc := Some c'\<rparr>)
                | (None, c') \<Rightarrow> (None, fc\<lparr>oc := Some c'\<rparr>))))"

section \<open>The frame streamer: RunLoop\<close>

text \<open>Which case a select of a loop took: its first case, with what it read, or \<open>quitC\<close>.\<close>

datatype 'a select_case = Taken 'a | Quit

text \<open>
  What \<open>RunLoop\<close> owns and what it does to the world: the connection, the pacing
  interval \<open>refresh\<close>, the durations handed to \<open>time.After\<close> at line 160, the number of
  \<open>sr.ProcessFrame\<close> calls, every call of \<open>fc.Send\<close> (device, strand, message, whether
  it returned nil) and where each error handed to \<open>sendErr\<close> ended up. The text printed to
  the console at line 208 is left out.
\<close>

record 't streamer =
  conn :: "'t FadeCandy"
  refresh :: Duration
  waits :: "Duration list"
  frames :: nat
  sends :: "(nat \<times> nat \<times> message \<times> bool) list"
  reported :: "sink_effect list"

text \<open>
  What one iteration reads from its collaborators, none of which is among the sources:
  the result of \<open>GetStrands()\<close> (the strand lengths of every device, in the order the
  range loops visit them), \<open>devices.GetStrandData\<close> after the universes were updated, and
  the reader of the error channel: \<open>consumer k\<close> is the time after which the channel can
  take the error of a call of \<open>sendErr\<close> that \<open>k\<close> calls preceded (\<open>None\<close>: never).
\<close>

record frame_env =
  GetStrands :: "string + nat list list"
  GetStrandData :: "nat \<Rightarrow> nat \<Rightarrow> string + color_RGBA list"
  consumer :: "nat \<Rightarrow> Duration option"

text \<open>A loop over a slice whose body may panic.\<close>

fun range_loop :: "('a \<Rightarrow> 's \<Rightarrow> panic + 's) \<Rightarrow> 'a list \<Rightarrow> 's \<Rightarrow> panic + 's" where
  "range_loop f [] s = Inr s"
| "range_loop f (x # xs) s =
     (case f x s of Inl p \<Rightarrow> Inl p | Inr s' \<Rightarrow> range_loop f xs s')"

text \<open>Lines 206 to 214: the send of a strand's message and the pacing that follows it.\<close>

definition send_strand ::
  "('t \<Rightarrow> message \<Rightarrow> string option \<times> 't) \<Rightarrow> string \<Rightarrow> nat \<Rightarrow> nat \<Rightarrow> message \<Rightarrow>
   't streamer \<Rightarrow> 't streamer" where
  "send_strand oc_Send trace device strand m st =
     (case Send oc_Send trace (conn st) (Some m) of
        (Some err, fc') \<Rightarrow>
          st\<lparr>conn := fc', sends := sends st @ [(device, strand, m, False)],
             refresh := 5 * Second\<rparr>
      | (None, fc') \<Rightarrow>
          st\<lparr>conn := fc', sends := sends st @ [(device, strand, m, True)],
             refresh := 30 * Millisecond\<rparr>)"

text \<open>
  Lines 174 and 188: \<open>sendErr(errorC, errors.Wrap(errGo).With("stack", ...))\<close>. The call
  panics on a closed channel; the time it took is not kept.
\<close>

definition RunLoop_sendErr ::
  "string \<Rightarrow> chan_state \<Rightarrow> frame_env \<Rightarrow> string \<Rightarrow> 't streamer \<Rightarrow> panic + 't streamer" where
  "RunLoop_sendErr trace errorC env errGo st =
     (case sendErr errorC (consumer env (length (reported st)))
             (With ''stack'' trace (errors_Wrap errGo)) of
        Inl p \<Rightarrow> Inl p
      | Inr (eff, t) \<Rightarrow> Inr (st\<lparr>reported := reported st @ [eff]\<rparr>))"

text \<open>Lines 180 to 214: the body of the loop over the strands of one device.\<close>

definition strand_step ::
  "('t \<Rightarrow> message \<Rightarrow> string option \<times> 't) \<Rightarrow> string \<Rightarrow> chan_state \<Rightarrow> frame_env \<Rightarrow> nat \<Rightarrow>
   nat \<times> nat \<Rightarrow> 't streamer \<Rightarrow> panic + 't streamer" where
  "strand_step oc_Send trace errorC env device sl st =
     (case sl of (strand, strandLen) \<Rightarrow>
        if strandLen = 0 then Inr st
        else
          (case GetStrandData env device strand of
             Inl errGo \<Rightarrow> RunLoop_sendErr trace errorC env errGo st
           | Inr strandData \<Rightarrow>
               (case build_message RGBA strandData of
                  Inl p \<Rightarrow> Inl p
                | Inr m \<Rightarrow> Inr (send_strand oc_Send trace device strand m st))))"

text \<open>Lines 161 to 216: one iteration of the loop after its timer fired.\<close>

definition frame ::
  "('t \<Rightarrow> message \<Rightarrow> string option \<times> 't) \<Rightarrow> string \<Rightarrow> chan_state \<Rightarrow> frame_env \<Rightarrow>
   't streamer \<Rightarrow> panic + 't streamer" where
  "frame oc_Send trace errorC env st0 =
     (let st = st0\<lparr>frames := Suc (frames st0)\<rparr> in
      case GetStrands env of
        Inl errGo \<Rightarrow> RunLoop_sendErr trace errorC env errGo st
      | Inr deviceStrands \<Rightarrow>
          range_loop
            (\<lambda>ds. case ds of (device, strands) \<Rightarrow>
               range_loop (strand_step oc_Send trace errorC env device) (enumerate 0 strands))
            (enumerate 0 deviceStrands) st)"

text \<open>
  Lines 158 to 220: the loop, driven by the cases its selects take. The Boolean says
  whether the loop returned; a list of events that ends without \<open>Quit\<close> leaves it at
  its select.
\<close>

fun RunLoop_loop ::
  "('t \<Rightarrow> message \<Rightarrow> string option \<times> 't) \<Rightarrow> string \<Rightarrow> chan_state \<Rightarrow>
   frame_env select_case list \<Rightarrow> 't streamer \<Rightarrow> panic + ('t streamer \<times> bool)" where
  "RunLoop_loop oc_Send trace errorC [] st = Inr (st, False)"
| "RunLoop_loop oc_Send trace errorC (Quit # evs) st =
     Inr (st\<lparr>waits := waits st @ [refresh st]\<rparr>, True)"
| "RunLoop_loop oc_Send trace errorC (Taken env # evs) st =
     (case frame oc_Send trace errorC env (st\<lparr>waits := waits st @ [refresh st]\<rparr>) of
        Inl p \<Rightarrow> Inl p
      | Inr st' \<Rightarrow> RunLoop_loop oc_Send trace errorC evs st')"

text \<open>
  What is known of a call of \<open>RunLoop\<close>: the streamer's state, whether it returned and
  with which error, and the error channel as the call left it.
\<close>

record 't RunLoop_result =
  final :: "'t streamer"
  returned :: bool
  result_err :: "error option"
  errorC_after :: chan_state

definition start_streamer :: "'t FadeCandy \<Rightarrow> 't streamer" where
  "start_streamer fc =
     \<lparr>conn = fc, refresh = 0, waits = [], frames = 0, sends = [], reported = []\<rparr>"

text \<open>
  A \<open>return\<close> of \<open>RunLoop\<close>: the deferred \<open>close(errorC)\<close> of line 145 runs, and panics
  on a nil or a closed channel.
\<close>

definition RunLoop_return ::
  "chan_state \<Rightarrow> 't streamer \<Rightarrow> error option \<Rightarrow> panic + 't RunLoop_result" where
  "RunLoop_return errorC st err =
     (case close_chan errorC of
        Inl p \<Rightarrow> Inl p
      | Inr c \<Rightarrow> Inr \<lparr>final = st, returned = True, result_err = err, errorC_after = c\<rparr>)"

text \<open>
  \<open>RunLoop\<close>, lines 143 to 221. \<open>GetSeqRunner\<close> and \<open>GetUniverses\<close> are not among the
  sources: the arguments are the errors they returned (\<open>None\<close> for nil). \<open>errorC\<close> is the
  channel the call was given, which no other goroutine closes while the call runs. A panic
  inside the loop ends the program; a list of events that ends without \<open>Quit\<close> leaves the
  call at its select, with the channel as it was.
\<close>

definition RunLoop ::
  "error option \<Rightarrow> error option \<Rightarrow> ('t \<Rightarrow> message \<Rightarrow> string option \<times> 't) \<Rightarrow> string \<Rightarrow>
   chan_state \<Rightarrow> frame_env select_case list \<Rightarrow> 't FadeCandy \<Rightarrow> panic + 't RunLoop_result" where
  "RunLoop GetSeqRunner GetUniverses oc_Send trace errorC events fc =
     (case GetSeqRunner of
        Some err \<Rightarrow> RunLoop_return errorC (start_streamer fc) (Some err)
      | None \<Rightarrow>
          (case GetUniverses of
             Some err \<Rightarrow> RunLoop_return errorC (start_streamer fc) (Some err)
           | None \<Rightarrow>
               (case RunLoop_loop oc_Send trace errorC events
                       ((start_streamer fc)\<lparr>refresh := 30 * Millisecond\<rparr>) of
                  Inl p \<Rightarrow> Inl p
                | Inr (st, ret) \<Rightarrow>
                    if ret then RunLoop_return errorC st None
                    else Inr \<lparr>final = st, returned = False, result_err = None,
                              errorC_after = errorC\<rparr>)))"

section \<open>The status cache and its subscriber\<close>

text \<open>
  Modelled from the spec: \<open>PortalMsg\<close>, whose declaration is not among the sources, with
  the two fields the subscriber reads: the origin flag \<open>Home\<close> and the status pointer.
  \<open>'p\<close> is the type of \<open>*Status\<close> values and \<open>DeepCopy\<close>, a parameter below, its method.
\<close>

record 'p PortalMsg =
  Home :: bool
  Status :: 'p

text \<open>Lines 47 to 55: what one received message (\<open>None\<close> for nil) does to the cache.\<close>

definition subscriber_step :: "('p \<Rightarrow> 'p) \<Rightarrow> 'p \<Rightarrow> 'p PortalMsg option \<Rightarrow> 'p" where
  "subscriber_step DeepCopy cache msg =
     (case msg of
        None \<Rightarrow> cache
      | Some m \<Rightarrow> if Home m then DeepCopy (Status m) else cache)"

text \<open>
  Lines 43 to 60: the subscriber goroutine. The result is the cache and whether the
  goroutine returned, which is when its deferred \<open>close(statusC)\<close> runs.
\<close>

fun subscriber :: "('p \<Rightarrow> 'p) \<Rightarrow> 'p PortalMsg option select_case list \<Rightarrow> 'p \<Rightarrow> 'p \<times> bool" where
  "subscriber DeepCopy [] cache = (cache, False)"
| "subscriber DeepCopy (Quit # evs) cache = (cache, True)"
| "subscriber DeepCopy (Taken msg # evs) cache =
     subscriber DeepCopy evs (subscriber_step DeepCopy cache msg)"

section \<open>The render loop: run\<close>

text \<open>
  Lines 101 to 121 without the select that offers the error: the new value of \<open>last\<close>,
  whether \<open>test8LED\<close> was called, and the error it returned. \<open>Md5\<close> stands for
  \<open>structhash.Md5(_, 1)\<close> and \<open>test8LED\<close> for the call with intensity 0.15; neither is
  among the sources. \<open>copied\<close> is the deep copy the tick took of the cache.
\<close>

definition run_tick ::
  "('p \<Rightarrow> u8 list) \<Rightarrow> ('p \<Rightarrow> error option) \<Rightarrow> 'p \<Rightarrow> u8 list \<Rightarrow>
   u8 list \<times> bool \<times> error option" where
  "run_tick Md5 test8LED copied last_hash =
     (let hash = Md5 copied in
      if hash \<noteq> last_hash
      then (hash, True, test8LED copied)
      else (last_hash, False, None))"

text \<open>
  What the loop of \<open>run\<close> owns and does: \<open>last\<close>, the snapshots handed to \<open>test8LED\<close>, in
  order, and the errors offered on the error channel at line 116.
\<close>

record 'p render_state =
  last_hash :: "u8 list"
  renders :: "'p list"
  offered :: "error list"

definition render_start :: "'p render_state" where
  "render_start = \<lparr>last_hash = [], renders = [], offered = []\<rparr>"

definition render_tick ::
  "('p \<Rightarrow> u8 list) \<Rightarrow> ('p \<Rightarrow> error option) \<Rightarrow> string \<Rightarrow> 'p \<Rightarrow> 'p render_state \<Rightarrow>
   'p render_state" where
  "render_tick Md5 test8LED server copied st =
     (case run_tick Md5 test8LED copied (last_hash st) of
        (h, called, e) \<Rightarrow>
          st\<lparr>last_hash := h,
             renders := renders st @ (if called then [copied] else []),
             offered := offered st @
               (case e of None \<Rightarrow> [] | Some err \<Rightarrow> [With ''url'' server err])\<rparr>)"

text \<open>Lines 98 to 125: the loop of \<open>run\<close>, driven by the cases its select takes.\<close>

fun run_loop ::
  "('p \<Rightarrow> u8 list) \<Rightarrow> ('p \<Rightarrow> error option) \<Rightarrow> string \<Rightarrow> 'p select_case list \<Rightarrow>
   'p render_state \<Rightarrow> 'p render_state \<times> bool" where
  "run_loop Md5 test8LED server [] st = (st, False)"
| "run_loop Md5 test8LED server (Quit # evs) st = (st, True)"
| "run_loop Md5 test8LED server (Taken copied # evs) st =
     run_loop Md5 test8LED server evs (render_tick Md5 test8LED server copied st)"

text \<open>The number of positions of a list whose element differs from its predecessor.\<close>

fun changes :: "'a \<Rightarrow> 'a list \<Rightarrow> nat" where
  "changes prev [] = 0"
| "changes prev (x # xs) = (if x \<noteq> prev then 1 else 0) + changes x xs"

section \<open>The three goroutines together\<close>

text \<open>
  Where a goroutine stands: before its loop (\<open>RunLoop\<close> only), at the select of its loop,
  at the select of lines 115 to 119 with the error \<open>test8LED\<close> returned (\<open>run\<close> only),
  returned, or stopped by a panic.
\<close>

datatype pc = Starting | AtSelect | Offering error | Returned | Panicked panic

text \<open>
  The state the subscriber goroutine, \<open>run\<close> and \<open>RunLoop\<close> share once
  \<open>StartFadeCandy\<close> has started them: the three channels, the cache, \<open>last\<close> of \<open>run\<close>,
  and where each goroutine stands.
\<close>

record 'p system =
  quitC :: chan_state
  statusC :: chan_state
  errorC :: chan_state
  cache :: 'p
  last_seen :: "u8 list"
  subscriber_pc :: pc
  run_pc :: pc
  RunLoop_pc :: pc

definition init_system :: "'p \<Rightarrow> 'p system" where
  "init_system nil =
     \<lparr>quitC = OpenChan, statusC = OpenChan, errorC = OpenChan, cache = nil, last_seen = [],
      subscriber_pc = AtSelect, run_pc = AtSelect, RunLoop_pc = Starting\<rparr>"

text \<open>
  One step of one goroutine, each a stretch of the source that runs between two of its
  selects:
  \<^item> \<open>CloseQuit\<close>: the caller raises the shutdown signal, \<open>close(quitC)\<close>;
  \<^item> \<open>SubscriberRecv\<close>: lines 47 to 55; \<open>SubscriberQuit\<close>: lines 56 and 57 and the deferred
    \<open>close(statusC)\<close> of line 44;
  \<^item> \<open>RunTimer\<close>: lines 100 to 114, up to the result of \<open>test8LED\<close>; \<open>RunSelectErr\<close>: the
    select of lines 115 to 119; \<open>RunQuit\<close>: lines 122 and 123;
  \<^item> \<open>RunLoopStart\<close>: lines 147 to 157 with the error of \<open>GetSeqRunner\<close> or
    \<open>GetUniverses\<close>; \<open>RunLoopTimer\<close>: lines 160 to 216, whose effect on the device is
    not followed here; \<open>RunLoopQuit\<close>: lines 217 and 218; a return of \<open>RunLoop\<close> runs the
    deferred \<open>close(errorC)\<close> of line 145.
\<close>

datatype 'p action =
    CloseQuit
  | SubscriberRecv "'p PortalMsg option"
  | SubscriberQuit
  | RunTimer
  | RunSelectErr "Duration option"
  | RunQuit
  | RunLoopStart "error option"
  | RunLoopTimer
  | RunLoopQuit

text \<open>The step an action takes; \<open>None\<close> when the goroutine cannot take it in this state.\<close>

definition sys_step ::
  "('p \<Rightarrow> 'p) \<Rightarrow> ('p \<Rightarrow> u8 list) \<Rightarrow> ('p \<Rightarrow> error option) \<Rightarrow> string \<Rightarrow> 'p action \<Rightarrow>
   'p system \<Rightarrow> 'p system option" where
  "sys_step DeepCopy Md5 test8LED server a s =
     (case a of
        CloseQuit \<Rightarrow>
          (if quitC s = OpenChan then Some (s\<lparr>quitC := ClosedChan\<rparr>) else None)
      | SubscriberRecv msg \<Rightarrow>
          (if subscriber_pc s = AtSelect
           then Some (s\<lparr>cache := subscriber_step DeepCopy (cache s) msg\<rparr>)
           else None)
      | SubscriberQuit \<Rightarrow>
          (if subscriber_pc s = AtSelect \<and> quitC s = ClosedChan
           then Some (case close_chan (statusC s) of
                        Inl p \<Rightarrow> s\<lparr>subscriber_pc := Panicked p\<rparr>
                      | Inr c \<Rightarrow> s\<lparr>subscriber_pc := Returned, statusC := c\<rparr>)
           else None)
      | RunTimer \<Rightarrow>
          (if run_pc s = AtSelect
           then (case run_tick Md5 test8LED (DeepCopy (cache s)) (last_seen s) of
                   (h, called, e) \<Rightarrow>
                     Some (s\<lparr>last_seen := h,
                             run_pc := (case e of None \<Rightarrow> AtSelect | Some err \<Rightarrow> Offering err)\<rparr>))
           else None)
      | RunSelectErr ready \<Rightarrow>
          (case run_pc s of
             Offering err \<Rightarrow>
               Some (case run_render_report (errorC s) ready server err of
                       Inl p \<Rightarrow> s\<lparr>run_pc := Panicked p\<rparr>
                     | Inr r \<Rightarrow> s\<lparr>run_pc := AtSelect\<rparr>)
           | _ \<Rightarrow> None)
      | RunQuit \<Rightarrow>
          (if run_pc s = AtSelect \<and> quitC s = ClosedChan
           then Some (s\<lparr>run_pc := Returned\<rparr>)
           else None)
      | RunLoopStart err \<Rightarrow>
          (if RunLoop_pc s = Starting
           then Some (case err of
                        None \<Rightarrow> s\<lparr>RunLoop_pc := AtSelect\<rparr>
                      | Some e \<Rightarrow>
                          (case close_chan (errorC s) of
                             Inl p \<Rightarrow> s\<lparr>RunLoop_pc := Panicked p\<rparr>
                           | Inr c \<Rightarrow> s\<lparr>RunLoop_pc := Returned, errorC := c\<rparr>))
           else None)
      | RunLoopTimer \<Rightarrow>
          (if RunLoop_pc s = AtSelect then Some s else None)
      | RunLoopQuit \<Rightarrow>
          (if RunLoop_pc s = AtSelect \<and> quitC s = ClosedChan
           then Some (case close_chan (errorC s) of
                        Inl p \<Rightarrow> s\<lparr>RunLoop_pc := Panicked p\<rparr>
                      | Inr c \<Rightarrow> s\<lparr>RunLoop_pc := Returned, errorC := c\<rparr>)
           else None))"

text \<open>A schedule: the steps in the order the scheduler lets the goroutines take them.\<close>

fun run_schedule ::
  "('p \<Rightarrow> 'p) \<Rightarrow> ('p \<Rightarrow> u8 list) \<Rightarrow> ('p \<Rightarrow> error option) \<Rightarrow> string \<Rightarrow> 'p action list \<Rightarrow>
   'p system \<Rightarrow> 'p system option" where
  "run_schedule DeepCopy Md5 test8LED server [] s = Some s"
| "run_schedule DeepCopy Md5 test8LED server (a # as) s =
     (case sys_step DeepCopy Md5 test8LED server a s of
        None \<Rightarrow> None
      | Some s' \<Rightarrow> run_schedule DeepCopy Md5 test8LED server as s')"

definition observe :: "'p system \<Rightarrow> chan_state \<times> chan_state \<times> pc \<times> pc" where
  "observe s = (quitC s, errorC s, run_pc s, RunLoop_pc s)"

section \<open>Concrete collaborators for the examples\<close>

text \<open>A transport that fails the sends it is told to fail, then succeeds.\<close>

definition fail_first :: "nat \<Rightarrow> message \<Rightarrow> string option \<times> nat" where
  "fail_first k m = (if k = 0 then (None, 0) else (Some ''write: broken pipe'', k - 1))"

text \<open>A transport whose sends succeed or fail as a list says, and succeed after it.\<close>

definition scripted :: "bool list \<Rightarrow> message \<Rightarrow> string option \<times> bool list" where
  "scripted c m =
     (case c of
        [] \<Rightarrow> (None, [])
      | ok # rest \<Rightarrow> (if ok then None else Some ''write: broken pipe'', rest))"

text \<open>A transport that accepts every message.\<close>

definition always_ok :: "unit \<Rightarrow> message \<Rightarrow> string option \<times> unit" where
  "always_ok c m = (None, c)"

text \<open>A connection attempt that is refused.\<close>

definition refuse :: "string \<Rightarrow> string \<Rightarrow> unit \<Rightarrow> string option \<times> unit" where
  "refuse network address c = (Some ''connection refused'', c)"

definition pixel :: "nat \<Rightarrow> nat \<Rightarrow> nat \<Rightarrow> nat \<Rightarrow> color_RGBA" where
  "pixel r g b a = \<lparr>red = of_nat r, green = of_nat g, blue = of_nat b, alpha = of_nat a\<rparr>"

text \<open>One device with one strand of one element.\<close>

definition strand_data_one :: "nat \<Rightarrow> nat \<Rightarrow> string + color_RGBA list" where
  "strand_data_one device strand = Inr [pixel 255 10 200 255]"

text \<open>An error channel that nobody reads.\<close>

definition no_consumer :: "nat \<Rightarrow> Duration option" where
  "no_consumer k = None"

definition one_strand :: frame_env where
  "one_strand =
     \<lparr>GetStrands = Inr [[1]], GetStrandData = strand_data_one, consumer = no_consumer\<rparr>"

text \<open>One device with two strands of one element each.\<close>

definition two_strands :: frame_env where
  "two_strands =
     \<lparr>GetStrands = Inr [[1, 1]], GetStrandData = strand_data_one, consumer = no_consumer\<rparr>"

text \<open>The strand address and the channel of every message handed to \<open>fc.Send\<close>.\<close>

definition sent_channels :: "'t streamer \<Rightarrow> (nat \<times> nat \<times> u8) list" where
  "sent_channels st = map (\<lambda>(device, strand, m, ok). (device, strand, channel m)) (sends st)"

text \<open>Snapshots that are numbers, with a one-byte fingerprint, and a renderer that fails.\<close>

definition byte_hash :: "nat \<Rightarrow> u8 list" where
  "byte_hash n = [of_nat n]"

definition failing_render :: "nat \<Rightarrow> error option" where
  "failing_render snapshot = Some (errors_New ''render failed'')"

definition same :: "nat \<Rightarrow> nat" where
  "same snapshot = snapshot"

section \<open>Building a message: lemmas\<close>

lemma widen_low_byte: "(ucast (widen c) :: u8) = c"
  unfolding widen_def
  by (rule bit_word_eqI) (auto simp: bit_simps)

lemma widen_eq_0_iff: "widen c = 0 \<longleftrightarrow> c = 0"
proof
  assume "widen c = 0"
  then have "(ucast (widen c) :: u8) = 0" by simp
  then show "c = 0" by (simp add: widen_low_byte)
next
  assume "c = 0"
  then show "widen c = 0" by (simp add: widen_def)
qed

lemma strand_pixel_RGBA:
  "strand_pixel (RGBA c) = (if alpha c = 0 then (0, 0, 0) else (red c, green c, blue c))"
  by (simp add: strand_pixel_def RGBA_def widen_eq_0_iff widen_low_byte)

lemma take_upd3:
  "n + 2 < length xs \<Longrightarrow>
   take (n + 3) (xs[n := r, n + 1 := g, n + 2 := b]) = take n xs @ [r, g, b]"
  by (rule nth_equalityI) (auto simp: nth_append nth_list_update less_Suc_eq numeral_3_eq_3)

lemma SetPixelColor_Inr:
  "3 * i + 2 < length (data m) \<Longrightarrow>
   SetPixelColor i r g b m = Inr (m\<lparr>data := (data m)[3 * i := r, 3 * i + 1 := g, 3 * i + 2 := b]\<rparr>)"
  by (simp add: SetPixelColor_def Let_def)

lemma SetPixelColor_Inl:
  "\<not> 3 * i + 2 < length (data m) \<Longrightarrow> SetPixelColor i r g b m = Inl IndexOutOfRange"
  by (simp add: SetPixelColor_def Let_def)

lemma set_pixels_ok:
  "length (data m) = 3 * (i + length cs) \<Longrightarrow>
   \<exists>m'. set_pixels rgba i cs m = Inr m' \<and> channel m' = channel m \<and>
        command m' = command m \<and> msg_len m' = msg_len m \<and>
        data m' = take (3 * i) (data m) @ concat (map (\<lambda>c. pixel_bytes (strand_pixel (rgba c))) cs)"
proof (induction cs arbitrary: i m)
  case Nil
  then show ?case by simp
next
  case (Cons c cs)
  obtain r g b where px: "strand_pixel (rgba c) = (r, g, b)"
    by (cases "strand_pixel (rgba c)") auto
  let ?m1 = "m\<lparr>data := (data m)[3 * i := r, 3 * i + 1 := g, 3 * i + 2 := b]\<rparr>"
  from Cons.prems have inr: "3 * i + 2 < length (data m)" by simp
  have len1: "length (data ?m1) = 3 * (Suc i + length cs)"
    using Cons.prems by simp
  from Cons.IH [OF len1] obtain m' where
    run: "set_pixels rgba (Suc i) cs ?m1 = Inr m'" and
    ch: "channel m' = channel m" and cmd: "command m' = command m" and
    ln: "msg_len m' = msg_len m" and
    dt: "data m' = take (3 * Suc i) (data ?m1) @ concat (map (\<lambda>c. pixel_bytes (strand_pixel (rgba c))) cs)"
    by auto
  have tk: "take (3 * Suc i) (data ?m1) = take (3 * i) (data m) @ [r, g, b]"
    using take_upd3 [OF inr, of r g b] by (simp add: add.commute)
  have "set_pixels rgba i (c # cs) m = Inr m'"
    using px run by (simp add: SetPixelColor_Inr [OF inr])
  then show ?case
    using ch cmd ln dt tk px by (simp add: pixel_bytes_def)
qed

lemma set_pixels_short:
  "length (data m) < 3 * (i + length cs) \<Longrightarrow> 3 * i \<le> length (data m) \<Longrightarrow>
   set_pixels rgba i cs m = Inl IndexOutOfRange"
proof (induction cs arbitrary: i m)
  case Nil
  then show ?case by simp
next
  case (Cons c cs)
  obtain r g b where px: "strand_pixel (rgba c) = (r, g, b)"
    by (cases "strand_pixel (rgba c)") auto
  show ?case
  proof (cases "3 * i + 2 < length (data m)")
    case True
    let ?m1 = "m\<lparr>data := (data m)[3 * i := r, 3 * i + 1 := g, 3 * i + 2 := b]\<rparr>"
    have a: "length (data ?m1) < 3 * (Suc i + length cs)" using Cons.prems by simp
    have b: "3 * Suc i \<le> length (data ?m1)" using True by simp
    show ?thesis
      using px Cons.IH [OF a b] by (simp add: SetPixelColor_Inr [OF True])
  next
    case False
    then show ?thesis using px by (simp add: SetPixelColor_Inl)
  qed
qed

lemma unat_len16: "unat (of_nat n :: u16) = n mod 65536"
  by (simp add: unat_of_nat)

lemma SetLength_fields:
  "channel (SetLength l m) = channel m" "command (SetLength l m) = command m"
  "msg_len (SetLength l m) = l" "length (data (SetLength l m)) = unat l"
  by (simp_all add: SetLength_def)

lemma build_message_fits:
  assumes "3 * length sd < 65536"
  shows "\<exists>m. build_message rgba sd = Inr m \<and> channel m = 0 \<and> command m = 0 \<and>
           unat (msg_len m) = 3 * length sd \<and>
           data m = concat (map (\<lambda>c. pixel_bytes (strand_pixel (rgba c))) sd)"
proof -
  define l :: u16 where "l = of_nat (length sd * 3)"
  let ?m0 = "SetLength l (NewMessage 0)"
  have ul: "unat l = 3 * length sd"
    unfolding l_def unat_len16 using assms by (simp add: mult.commute)
  have len: "length (data ?m0) = 3 * (0 + length sd)"
    using ul by (simp add: SetLength_fields)
  from set_pixels_ok [OF len, of rgba] obtain m' where
    r: "set_pixels rgba 0 sd ?m0 = Inr m'" and c: "channel m' = channel ?m0"
    and k: "command m' = command ?m0" and n: "msg_len m' = msg_len ?m0"
    and d: "data m' = take (3 * 0) (data ?m0) @ concat (map (\<lambda>c. pixel_bytes (strand_pixel (rgba c))) sd)"
    by blast
  have "build_message rgba sd = Inr m'"
    unfolding build_message_def l_def [symmetric] by (rule r)
  moreover have "channel m' = 0" "command m' = 0"
    using c k by (simp_all add: SetLength_fields NewMessage_def)
  moreover have "unat (msg_len m') = 3 * length sd"
    using n ul by (simp add: SetLength_fields)
  moreover have "data m' = concat (map (\<lambda>c. pixel_bytes (strand_pixel (rgba c))) sd)"
    using d by simp
  ultimately show ?thesis by blast
qed

lemma build_message_too_long:
  assumes "65536 \<le> 3 * length sd"
  shows "build_message rgba sd = Inl IndexOutOfRange"
proof -
  define l :: u16 where "l = of_nat (length sd * 3)"
  let ?m0 = "SetLength l (NewMessage 0)"
  have "unat l = (length sd * 3) mod 65536"
    unfolding l_def by (rule unat_len16)
  then have "unat l < 65536" by simp
  then have a: "length (data ?m0) < 3 * (0 + length sd)"
    using assms by (simp add: SetLength_fields)
  have b: "3 * 0 \<le> length (data ?m0)" by simp
  show ?thesis
    unfolding build_message_def l_def [symmetric] by (rule set_pixels_short [OF a b])
qed

lemma build_message_Inr_fits:
  "build_message rgba sd = Inr m \<Longrightarrow> 3 * length sd < 65536"
  using build_message_too_long [of sd rgba] by (cases "3 * length sd < 65536") auto

lemma concat_triples_nth:
  "i < length ts \<Longrightarrow>
   (concat (map pixel_bytes ts) ! (3 * i), concat (map pixel_bytes ts) ! (3 * i + 1),
    concat (map pixel_bytes ts) ! (3 * i + 2)) = ts ! i"
proof (induction ts arbitrary: i)
  case Nil
  then show ?case by simp
next
  case (Cons t ts)
  obtain r g b where t: "t = (r, g, b)" by (cases t) auto
  show ?case
  proof (cases i)
    case 0
    then show ?thesis by (simp add: t pixel_bytes_def)
  next
    case (Suc j)
    then have j: "j < length ts" using Cons.prems by simp
    have "3 * i = Suc (Suc (Suc (3 * j)))" using Suc by simp
    then show ?thesis
      using Cons.IH [OF j] Suc by (simp add: t pixel_bytes_def)
  qed
qed

lemma build_message_triple:
  assumes "build_message rgba sd = Inr m" and "i < length sd"
  shows "triple_at m i = strand_pixel (rgba (sd ! i))"
proof -
  from build_message_fits [OF build_message_Inr_fits [OF assms(1)], of rgba] assms(1)
  have d: "data m = concat (map pixel_bytes (map (\<lambda>c. strand_pixel (rgba c)) sd))"
    by (auto simp: comp_def)
  have "i < length (map (\<lambda>c. strand_pixel (rgba c)) sd)" using assms(2) by simp
  from concat_triples_nth [OF this] show ?thesis
    using assms(2) by (simp add: triple_at_def d)
qed

section \<open>Claims\<close>

text \<open>
  Claim C1. In the streaming step of \<open>RunLoop\<close>, for every element of the strand's pixel
  buffer, the triple written into the message is (0,0,0) when the element's alpha is zero,
  whatever its colours, and its red, green and blue otherwise. A message is built for
  every buffer whose byte count fits the 16-bit length field.
\<close>

theorem alpha_zero_forces_black:
  "(3 * length strandData < 65536 \<longrightarrow> (\<exists>m. build_message RGBA strandData = Inr m)) \<and>
   (\<forall>m i. build_message RGBA strandData = Inr m \<and> i < length strandData \<longrightarrow>
      triple_at m i =
        (if alpha (strandData ! i) = 0 then (0, 0, 0)
         else (red (strandData ! i), green (strandData ! i), blue (strandData ! i))))"
proof (intro conjI allI impI)
  assume "3 * length strandData < 65536"
  from build_message_fits [OF this, of RGBA] show "\<exists>m. build_message RGBA strandData = Inr m"
    by blast
next
  fix m i
  assume "build_message RGBA strandData = Inr m \<and> i < length strandData"
  then show "triple_at m i =
        (if alpha (strandData ! i) = 0 then (0, 0, 0)
         else (red (strandData ! i), green (strandData ! i), blue (strandData ! i)))"
    using build_message_triple [of RGBA strandData m i] by (simp add: strand_pixel_RGBA)
qed

theorem alpha_zero_forces_black_witness:
  "build_message RGBA [pixel 255 10 200 0, pixel 1 2 3 4] =
     Inr \<lparr>channel = 0, command = 0, msg_len = 6, data = [0, 0, 0, 1, 2, 3]\<rparr> \<and>
   triple_at \<lparr>channel = 0, command = 0, msg_len = 6, data = [0, 0, 0, 1, 2, 3]\<rparr> 0 = (0, 0, 0) \<and>
   triple_at \<lparr>channel = 0, command = 0, msg_len = 6, data = [0, 0, 0, 1, 2, 3]\<rparr> 1 = (1, 2, 3)"
proof -
  have b: "build_message RGBA [pixel 255 10 200 0, pixel 1 2 3 4] =
     Inr \<lparr>channel = 0, command = 0, msg_len = 6, data = [0, 0, 0, 1, 2, 3]\<rparr>"
    by code_simp
  from alpha_zero_forces_black [of "[pixel 255 10 200 0, pixel 1 2 3 4]"] b
  have "\<forall>i. i < 2 \<longrightarrow> triple_at \<lparr>channel = 0, command = 0, msg_len = 6, data = [0, 0, 0, 1, 2, 3]\<rparr> i =
     (if alpha ([pixel 255 10 200 0, pixel 1 2 3 4] ! i) = 0 then (0, 0, 0)
         else (red ([pixel 255 10 200 0, pixel 1 2 3 4] ! i), green ([pixel 255 10 200 0, pixel 1 2 3 4] ! i), blue ([pixel 255 10 200 0, pixel 1 2 3 4] ! i)))"
    by simp
  then have "triple_at \<lparr>channel = 0, command = 0, msg_len = 6, data = [0, 0, 0, 1, 2, 3]\<rparr> 0 = (0,0,0)"
    and "triple_at \<lparr>channel = 0, command = 0, msg_len = 6, data = [0, 0, 0, 1, 2, 3]\<rparr> 1 = (1,2,3)"
    by (simp_all add: pixel_def)
  with b show ?thesis by simp
qed

lemma msg_len_of_unat:
  "unat (msg_len m) = n \<Longrightarrow> msg_len m = of_nat n"
  by auto

lemma strand_step_zero: "strand_step oc_Send trace ch env device (strand, 0) st = Inr st"
  by (simp add: strand_step_def)

lemma sends_send_strand:
  "\<exists>ok. sends (send_strand oc_Send trace device strand m st) = sends st @ [(device, strand, m, ok)]"
  by (cases "Send oc_Send trace (conn st) (Some m)"; cases "fst (Send oc_Send trace (conn st) (Some m))")
     (auto simp: send_strand_def)

text \<open>
  Claim C6, as amended. Every message built for a strand's pixel buffer of \<open>n\<close> elements
  carries channel 0, whatever the strand's address, a 16-bit length field equal to
  \<open>3 * n\<close> (which is below \<open>2 ^ 16\<close> for every message that is built), and exactly one
  (R,G,B) triple per element in element order; a strand whose configured length is zero
  produces no message, and any other strand whose buffer was read and whose message was
  built has that message handed to \<open>fc.Send\<close>.
\<close>

theorem strand_message_framing:
  "(\<forall>m. build_message RGBA sd = Inr m \<longrightarrow>
      channel m = 0 \<and> msg_len m = of_nat (3 * length sd) \<and>
      unat (msg_len m) = (3 * length sd) mod 2 ^ 16 \<and>
      length (data m) = 3 * length sd \<and>
      data m = concat (map (\<lambda>c. pixel_bytes (strand_pixel (RGBA c))) sd) \<and>
      (\<forall>i < length sd. triple_at m i = strand_pixel (RGBA (sd ! i)))) \<and>
   (3 * length sd < 65536 \<longrightarrow> (\<exists>m. build_message RGBA sd = Inr m)) \<and>
   strand_step oc_Send trace ch env device (strand, 0) st = Inr st \<and>
   (\<forall>m. strandLen \<noteq> 0 \<and> GetStrandData env device strand = Inr sd \<and>
        build_message RGBA sd = Inr m \<longrightarrow>
      (\<exists>ok. map_sum id sends (strand_step oc_Send trace ch env device (strand, strandLen) st) =
         Inr (sends st @ [(device, strand, m, ok)])))"
proof (intro conjI allI impI)
  fix m
  assume b: "build_message RGBA sd = Inr m"
  have fit: "3 * length sd < 65536" by (rule build_message_Inr_fits [OF b])
  from build_message_fits [OF fit, of RGBA] b
  have c: "channel m = 0" and u: "unat (msg_len m) = 3 * length sd"
    and d: "data m = concat (map (\<lambda>c. pixel_bytes (strand_pixel (RGBA c))) sd)"
    by auto
  show "channel m = 0" by (rule c)
  show "msg_len m = of_nat (3 * length sd)" by (rule msg_len_of_unat [OF u])
  show "unat (msg_len m) = (3 * length sd) mod 2 ^ 16" using u fit by simp
  show "data m = concat (map (\<lambda>c. pixel_bytes (strand_pixel (RGBA c))) sd)" by (rule d)
  have "length (concat (map (\<lambda>c. pixel_bytes (strand_pixel (RGBA c))) xs)) = 3 * length xs" for xs
    by (induction xs) (auto simp: pixel_bytes_def split: prod.splits)
  then show "length (data m) = 3 * length sd" using d by simp
  fix i assume "i < length sd"
  then show "triple_at m i = strand_pixel (RGBA (sd ! i))"
    by (rule build_message_triple [OF b])
next
  assume "3 * length sd < 65536"
  from build_message_fits [OF this, of RGBA] show "\<exists>m. build_message RGBA sd = Inr m" by blast
next
  show "strand_step oc_Send trace ch env device (strand, 0) st = Inr st"
    by (rule strand_step_zero)
next
  fix m
  assume a: "strandLen \<noteq> 0 \<and> GetStrandData env device strand = Inr sd \<and>
        build_message RGBA sd = Inr m"
  from sends_send_strand [of oc_Send trace device strand m st] obtain ok where
    "sends (send_strand oc_Send trace device strand m st) = sends st @ [(device, strand, m, ok)]"
    by blast
  with a show "\<exists>ok. map_sum id sends (strand_step oc_Send trace ch env device (strand, strandLen) st) =
         Inr (sends st @ [(device, strand, m, ok)])"
    by (auto simp: strand_step_def)
qed

text \<open>
  Claim C6 as stated fails: of two strands of one device, the second, at address 1, has
  its message sent on channel 0.
\<close>

theorem strand_address_counterexample:
  "map_sum id sent_channels
     (frame always_ok ''RunLoop'' OpenChan two_strands (start_streamer \<lparr>oc = Some ()\<rparr>)) =
   Inr [(0, 0, 0), (0, 1, 0)]"
  by code_simp


text \<open>The strand of one element, at device 0 and strand 0.\<close>

theorem strand_message_framing_witness:
  "build_message RGBA [pixel 255 10 200 255] =
     Inr \<lparr>channel = 0, command = 0, msg_len = 3, data = [255, 10, 200]\<rparr> \<and>
   channel \<lparr>channel = 0, command = 0, msg_len = 3, data = [255, 10, 200]\<rparr> = 0 \<and>
   unat (msg_len \<lparr>channel = 0, command = 0, msg_len = 3, data = [255, 10, 200]\<rparr>) =
     (3 * length [pixel 255 10 200 255]) mod 2 ^ 16 \<and>
   (1 :: nat) \<noteq> 0 \<and>
   GetStrandData one_strand 0 0 = Inr [pixel 255 10 200 255] \<and>
   (\<exists>ok. map_sum id sends
      (strand_step always_ok ''RunLoop'' OpenChan one_strand 0 (0, 1) (start_streamer \<lparr>oc = Some ()\<rparr>)) =
      Inr (sends (start_streamer \<lparr>oc = Some ()\<rparr>) @
           [(0, 0, \<lparr>channel = 0, command = 0, msg_len = 3, data = [255, 10, 200]\<rparr>, ok)]))"
proof -
  let ?M = "\<lparr>channel = 0, command = 0, msg_len = 3, data = [255, 10, 200]\<rparr>"
  let ?st = "start_streamer \<lparr>oc = Some ()\<rparr>"
  have b: "build_message RGBA [pixel 255 10 200 255] = Inr ?M"
    by code_simp
  have g: "GetStrandData one_strand 0 0 = Inr [pixel 255 10 200 255]"
    by (simp add: one_strand_def strand_data_one_def)
  have n: "(1 :: nat) \<noteq> 0" by simp
  note t = strand_message_framing [where sd = "[pixel 255 10 200 255]" and oc_Send = always_ok
      and trace = "''RunLoop''" and ch = OpenChan and env = one_strand and device = 0
      and strand = 0
      and st = ?st and strandLen = 1]
  from t b have c: "channel ?M = 0"
    and u: "unat (msg_len ?M) = (3 * length [pixel 255 10 200 255]) mod 2 ^ 16"
    by blast+
  from t n g b have s: "\<exists>ok. map_sum id sends
      (strand_step always_ok ''RunLoop'' OpenChan one_strand 0 (0, 1) ?st) =
      Inr (sends ?st @ [(0, 0, ?M, ok)])"
    by blast
  show ?thesis
    by (intro conjI) (rule b c u n g s)+
qed

subsection \<open>Pacing\<close>

lemma refresh_send_strand:
  "refresh (send_strand oc_Send trace device strand m st) =
     (if fst (Send oc_Send trace (conn st) (Some m)) = None then 30 * Millisecond else 5 * Second)"
  by (cases "Send oc_Send trace (conn st) (Some m)"; cases "fst (Send oc_Send trace (conn st) (Some m))")
     (auto simp: send_strand_def)

lemma waits_send_strand: "waits (send_strand oc_Send trace device strand m st) = waits st"
  by (cases "Send oc_Send trace (conn st) (Some m)"; cases "fst (Send oc_Send trace (conn st) (Some m))")
     (auto simp: send_strand_def)

lemma sends_send_strand_result:
  "sends (send_strand oc_Send trace device strand m st) =
     sends st @ [(device, strand, m, fst (Send oc_Send trace (conn st) (Some m)) = None)]"
  by (cases "Send oc_Send trace (conn st) (Some m)"; cases "fst (Send oc_Send trace (conn st) (Some m))")
     (auto simp: send_strand_def)

lemma RunLoop_sendErr_keeps:
  assumes "RunLoop_sendErr trace ch env errGo st = Inr st'"
  shows "sends st' = sends st" "refresh st' = refresh st" "waits st' = waits st"
  using assms by (auto simp: RunLoop_sendErr_def split: sum.splits prod.splits)

lemma range_loop_preserves:
  assumes step: "\<And>x s s'. f x s = Inr s' \<Longrightarrow> P s \<Longrightarrow> P s'"
  shows "range_loop f xs s = Inr s' \<Longrightarrow> P s \<Longrightarrow> P s'"
proof (induction xs arbitrary: s)
  case Nil
  then show ?case by simp
next
  case (Cons x xs)
  from Cons.prems(1) obtain s1 where f: "f x s = Inr s1" and r: "range_loop f xs s1 = Inr s'"
    by (auto split: sum.splits)
  from step [OF f Cons.prems(2)] have "P s1" .
  from Cons.IH [OF r this] show ?case .
qed

lemma strand_step_sent:
  assumes "strandLen \<noteq> 0" and "GetStrandData env device strand = Inr sd"
    and "build_message RGBA sd = Inr m"
  shows "strand_step oc_Send trace ch env device (strand, strandLen) st =
           Inr (send_strand oc_Send trace device strand m st)"
  using assms by (simp add: strand_step_def)

lemma strand_step_cases:
  assumes "strand_step oc_Send trace ch env device sl st = Inr st'"
  shows "sends st' = sends st \<and> refresh st' = refresh st \<or>
         (\<exists>m. sends st' =
                 sends st @ [(device, fst sl, m, fst (Send oc_Send trace (conn st) (Some m)) = None)] \<and>
               refresh st' =
                 (if fst (Send oc_Send trace (conn st) (Some m)) = None
                  then 30 * Millisecond else 5 * Second))"
proof (cases sl)
  case (Pair strand strandLen)
  show ?thesis
  proof (cases "strandLen = 0")
    case True
    with assms Pair show ?thesis by (simp add: strand_step_def)
  next
    case False
    show ?thesis
    proof (cases "GetStrandData env device strand")
      case (Inl errGo)
      with assms Pair False have "RunLoop_sendErr trace ch env errGo st = Inr st'"
        by (simp add: strand_step_def)
      from RunLoop_sendErr_keeps [OF this] show ?thesis by simp
    next
      case (Inr sd)
      with assms Pair False obtain m where
        "st' = send_strand oc_Send trace device strand m st"
        by (auto simp: strand_step_def split: sum.splits)
      then show ?thesis
        using Pair by (auto simp: sends_send_strand_result refresh_send_strand)
    qed
  qed
qed

lemma waits_strand_step:
  "strand_step oc_Send trace ch env device sl st = Inr st' \<Longrightarrow> waits st = w \<Longrightarrow> waits st' = w"
  by (cases sl)
     (auto simp: strand_step_def waits_send_strand RunLoop_sendErr_keeps
           split: if_splits sum.splits)

lemma paced_strand_step:
  assumes s: "strand_step oc_Send trace ch env device sl st = Inr st'"
    and p: "\<exists>new. sends st = sends st0 @ new \<and>
              refresh st = (if new = [] then refresh st0
                            else if snd (snd (snd (last new))) then 30 * Millisecond else 5 * Second)"
  shows "\<exists>new. sends st' = sends st0 @ new \<and>
              refresh st' = (if new = [] then refresh st0
                             else if snd (snd (snd (last new))) then 30 * Millisecond else 5 * Second)"
proof -
  from p obtain new where n: "sends st = sends st0 @ new"
    and r: "refresh st = (if new = [] then refresh st0
                          else if snd (snd (snd (last new))) then 30 * Millisecond else 5 * Second)"
    by blast
  from strand_step_cases [OF s] show ?thesis
  proof
    assume "sends st' = sends st \<and> refresh st' = refresh st"
    with n r show ?thesis by auto
  next
    assume "\<exists>m. sends st' =
                 sends st @ [(device, fst sl, m, fst (Send oc_Send trace (conn st) (Some m)) = None)] \<and>
               refresh st' =
                 (if fst (Send oc_Send trace (conn st) (Some m)) = None
                  then 30 * Millisecond else 5 * Second)"
    then obtain m where
      a: "sends st' = sends st0 @ (new @ [(device, fst sl, m, fst (Send oc_Send trace (conn st) (Some m)) = None)])"
      and b: "refresh st' = (if fst (Send oc_Send trace (conn st) (Some m)) = None
                  then 30 * Millisecond else 5 * Second)"
      using n by auto
    show ?thesis
      by (rule exI [of _ "new @ [(device, fst sl, m, fst (Send oc_Send trace (conn st) (Some m)) = None)]"])
         (simp add: a b)
  qed
qed

lemma frame_keeps_waits_and_paces:
  assumes "frame oc_Send trace ch env st = Inr st'"
  shows "waits st' = waits st \<and>
         (\<exists>new. sends st' = sends st @ new \<and>
              refresh st' = (if new = [] then refresh st
                             else if snd (snd (snd (last new))) then 30 * Millisecond else 5 * Second))"
proof (cases "GetStrands env")
  case (Inl errGo)
  with assms have "RunLoop_sendErr trace ch env errGo (st\<lparr>frames := Suc (frames st)\<rparr>) = Inr st'"
    by (simp add: frame_def Let_def)
  from RunLoop_sendErr_keeps [OF this] show ?thesis by simp
next
  case (Inr deviceStrands)
  let ?P = "\<lambda>s. waits s = waits st \<and>
         (\<exists>new. sends s = sends st @ new \<and>
              refresh s = (if new = [] then refresh st
                           else if snd (snd (snd (last new))) then 30 * Millisecond else 5 * Second))"
  let ?f = "\<lambda>ds. case ds of (device, strands) \<Rightarrow>
               range_loop (strand_step oc_Send trace ch env device) (enumerate 0 strands)"
  have one: "strand_step oc_Send trace ch env device sl s = Inr s' \<Longrightarrow> ?P s \<Longrightarrow> ?P s'"
    for device sl s s'
    using waits_strand_step [of oc_Send trace ch env device sl s s' "waits st"]
      paced_strand_step [of oc_Send trace ch env device sl s s' st]
    by blast
  have inner: "?f ds s = Inr s' \<Longrightarrow> ?P s \<Longrightarrow> ?P s'" for ds s s'
  proof (cases ds)
    case (Pair device strands)
    assume a: "?f ds s = Inr s'" and b: "?P s"
    from a Pair have
      "range_loop (strand_step oc_Send trace ch env device) (enumerate 0 strands) s = Inr s'"
      by simp
    from range_loop_preserves [where P = ?P, OF one this b] show "?P s'" .
  qed
  from assms Inr have
    "range_loop ?f (enumerate 0 deviceStrands) (st\<lparr>frames := Suc (frames st)\<rparr>) = Inr st'"
    by (simp add: frame_def Let_def)
  from range_loop_preserves [where P = ?P, OF inner this] show ?thesis by simp
qed

lemma waits_one_iteration:
  assumes "RunLoop_loop oc_Send trace ch [ev] st = Inr (st', b)"
  shows "waits st' = waits st @ [refresh st]"
proof (cases ev)
  case (Taken env)
  with assms have
    "frame oc_Send trace ch env (st\<lparr>waits := waits st @ [refresh st]\<rparr>) = Inr st'"
    by (auto split: sum.splits)
  from frame_keeps_waits_and_paces [OF this] show ?thesis by simp
next
  case Quit
  with assms show ?thesis by auto
qed

lemma RunLoop_loop_append:
  "RunLoop_loop oc_Send trace ch (map Taken envs @ evs) st =
     (case RunLoop_loop oc_Send trace ch (map Taken envs) st of
        Inl p \<Rightarrow> Inl p
      | Inr (st1, b) \<Rightarrow> RunLoop_loop oc_Send trace ch evs st1)"
  by (induction envs arbitrary: st) (auto split: sum.splits)

lemma RunLoop_loop_paces:
  "RunLoop_loop oc_Send trace ch (map Taken envs) st = Inr (st1, b) \<Longrightarrow>
   \<not> b \<and> (\<exists>new. sends st1 = sends st @ new \<and>
              refresh st1 = (if new = [] then refresh st
                             else if snd (snd (snd (last new))) then 30 * Millisecond else 5 * Second))"
proof (induction envs arbitrary: st)
  case Nil
  then show ?case by simp
next
  case (Cons env envs)
  let ?st = "st\<lparr>waits := waits st @ [refresh st]\<rparr>"
  from Cons.prems obtain s where f: "frame oc_Send trace ch env ?st = Inr s"
    and r: "RunLoop_loop oc_Send trace ch (map Taken envs) s = Inr (st1, b)"
    by (auto split: sum.splits)
  from frame_keeps_waits_and_paces [OF f] obtain new1 where
    a: "sends s = sends st @ new1" and
    b: "refresh s = (if new1 = [] then refresh st
                     else if snd (snd (snd (last new1))) then 30 * Millisecond else 5 * Second)"
    by auto
  from Cons.IH [OF r] obtain new2 where nb: "\<not> b" and
    c: "sends st1 = sends s @ new2" and
    d: "refresh st1 = (if new2 = [] then refresh s
                     else if snd (snd (snd (last new2))) then 30 * Millisecond else 5 * Second)"
    by auto
  have "sends st1 = sends st @ (new1 @ new2) \<and>
        refresh st1 = (if new1 @ new2 = [] then refresh st
                       else if snd (snd (snd (last (new1 @ new2)))) then 30 * Millisecond else 5 * Second)"
    using a b c d by simp
  with nb show ?case by blast
qed

text \<open>
  Claim C2. The interval of \<open>RunLoop\<close> starts at 30 ms. Every strand whose message was
  sent leaves it at 5 s when \<open>fc.Send\<close> returned an error and at 30 ms when it returned
  nil, and nothing else in the loop changes it: after a frame, and after any number of
  frames, it is the value set by the last send so far, or the value it had when nothing was
  sent. Every iteration of the loop, also the one that takes the shutdown signal, waits
  the interval in force when it starts. With a connection that fails the first three
  sends, four frames of one strand and the shutdown signal wait 30 ms, 5 s, 5 s, 5 s,
  30 ms; a frame of two strands whose second send fails is followed by a wait of 5 s, and
  one whose first send fails and whose second succeeds by a wait of 30 ms.
\<close>

theorem pacing_adapts_and_recovers:
  "map_sum id (refresh \<circ> final) (RunLoop None None oc_Send trace ch [] fc) = Inr (30 * Millisecond) \<and>
   (strandLen \<noteq> 0 \<and> GetStrandData env device strand = Inr sd \<and> build_message RGBA sd = Inr m \<longrightarrow>
      map_sum id refresh (strand_step oc_Send trace ch env device (strand, strandLen) st) =
        Inr (if fst (Send oc_Send trace (conn st) (Some m)) = None
             then 30 * Millisecond else 5 * Second)) \<and>
   (\<forall>st'. strand_step oc_Send trace ch env device sl st = Inr st' \<longrightarrow>
      sends st' = sends st \<and> refresh st' = refresh st \<or>
      (\<exists>m'. sends st' =
               sends st @ [(device, fst sl, m', fst (Send oc_Send trace (conn st) (Some m')) = None)] \<and>
             refresh st' =
               (if fst (Send oc_Send trace (conn st) (Some m')) = None
                then 30 * Millisecond else 5 * Second))) \<and>
   (\<forall>st'. frame oc_Send trace ch env st = Inr st' \<longrightarrow>
      (\<exists>new. sends st' = sends st @ new \<and>
         refresh st' = (if new = [] then refresh st
                        else if snd (snd (snd (last new))) then 30 * Millisecond else 5 * Second))) \<and>
   (\<forall>st' b. RunLoop_loop oc_Send trace ch [ev] st = Inr (st', b) \<longrightarrow>
      waits st' = waits st @ [refresh st]) \<and>
   (\<forall>st2 b. RunLoop_loop oc_Send trace ch (map Taken envs @ [ev]) st = Inr (st2, b) \<longrightarrow>
      (\<exists>st1 new. RunLoop_loop oc_Send trace ch (map Taken envs) st = Inr (st1, False) \<and>
         sends st1 = sends st @ new \<and>
         refresh st1 = (if new = [] then refresh st
                        else if snd (snd (snd (last new))) then 30 * Millisecond else 5 * Second) \<and>
         waits st2 = waits st1 @ [refresh st1])) \<and>
   map_sum id (waits \<circ> final)
     (RunLoop None None fail_first ''RunLoop'' OpenChan
        [Taken one_strand, Taken one_strand, Taken one_strand, Taken one_strand, Quit]
        \<lparr>oc = Some 3\<rparr>) =
     Inr [30 * Millisecond, 5 * Second, 5 * Second, 5 * Second, 30 * Millisecond] \<and>
   map_sum id (map (snd \<circ> snd \<circ> snd) \<circ> sends \<circ> final)
     (RunLoop None None fail_first ''RunLoop'' OpenChan
        [Taken one_strand, Taken one_strand, Taken one_strand, Taken one_strand, Quit]
        \<lparr>oc = Some 3\<rparr>) =
     Inr [False, False, False, True] \<and>
   map_sum id (waits \<circ> final)
     (RunLoop None None scripted ''RunLoop'' OpenChan [Taken two_strands, Quit]
        \<lparr>oc = Some [True, False]\<rparr>) =
     Inr [30 * Millisecond, 5 * Second] \<and>
   map_sum id (waits \<circ> final)
     (RunLoop None None scripted ''RunLoop'' OpenChan [Taken two_strands, Quit]
        \<lparr>oc = Some [False, True]\<rparr>) =
     Inr [30 * Millisecond, 30 * Millisecond]"
proof (intro conjI allI impI)
  show "map_sum id (refresh \<circ> final) (RunLoop None None oc_Send trace ch [] fc) = Inr (30 * Millisecond)"
    by (simp add: RunLoop_def start_streamer_def)
  show "map_sum id refresh (strand_step oc_Send trace ch env device (strand, strandLen) st) =
        Inr (if fst (Send oc_Send trace (conn st) (Some m)) = None
             then 30 * Millisecond else 5 * Second)"
    if "strandLen \<noteq> 0 \<and> GetStrandData env device strand = Inr sd \<and> build_message RGBA sd = Inr m"
    using that by (simp add: strand_step_sent refresh_send_strand)
  show "sends st' = sends st \<and> refresh st' = refresh st \<or>
      (\<exists>m'. sends st' =
               sends st @ [(device, fst sl, m', fst (Send oc_Send trace (conn st) (Some m')) = None)] \<and>
             refresh st' =
               (if fst (Send oc_Send trace (conn st) (Some m')) = None
                then 30 * Millisecond else 5 * Second))"
    if "strand_step oc_Send trace ch env device sl st = Inr st'" for st'
    using that by (rule strand_step_cases)
  show "\<exists>new. sends st' = sends st @ new \<and>
         refresh st' = (if new = [] then refresh st
                        else if snd (snd (snd (last new))) then 30 * Millisecond else 5 * Second)"
    if "frame oc_Send trace ch env st = Inr st'" for st'
    using frame_keeps_waits_and_paces [OF that] by (rule conjunct2)
  show "waits st' = waits st @ [refresh st]"
    if "RunLoop_loop oc_Send trace ch [ev] st = Inr (st', b)" for st' b
    using that by (rule waits_one_iteration)
  show "\<exists>st1 new. RunLoop_loop oc_Send trace ch (map Taken envs) st = Inr (st1, False) \<and>
         sends st1 = sends st @ new \<and>
         refresh st1 = (if new = [] then refresh st
                        else if snd (snd (snd (last new))) then 30 * Millisecond else 5 * Second) \<and>
         waits st2 = waits st1 @ [refresh st1]"
    if h: "RunLoop_loop oc_Send trace ch (map Taken envs @ [ev]) st = Inr (st2, b)" for st2 b
  proof -
    from h obtain st1 b1 where
      a: "RunLoop_loop oc_Send trace ch (map Taken envs) st = Inr (st1, b1)" and
      l: "RunLoop_loop oc_Send trace ch [ev] st1 = Inr (st2, b)"
      by (auto simp: RunLoop_loop_append split: sum.splits)
    from RunLoop_loop_paces [OF a] obtain new where nb: "\<not> b1" and
      s: "sends st1 = sends st @ new" and
      r: "refresh st1 = (if new = [] then refresh st
                        else if snd (snd (snd (last new))) then 30 * Millisecond else 5 * Second)"
      by blast
    from waits_one_iteration [OF l] have w: "waits st2 = waits st1 @ [refresh st1]" .
    from a nb have a': "RunLoop_loop oc_Send trace ch (map Taken envs) st = Inr (st1, False)"
      by simp
    from a' s r w show ?thesis by blast
  qed
  show "map_sum id (waits \<circ> final)
     (RunLoop None None fail_first ''RunLoop'' OpenChan
        [Taken one_strand, Taken one_strand, Taken one_strand, Taken one_strand, Quit]
        \<lparr>oc = Some 3\<rparr>) =
     Inr [30 * Millisecond, 5 * Second, 5 * Second, 5 * Second, 30 * Millisecond]"
    by code_simp
  show "map_sum id (map (snd \<circ> snd \<circ> snd) \<circ> sends \<circ> final)
     (RunLoop None None fail_first ''RunLoop'' OpenChan
        [Taken one_strand, Taken one_strand, Taken one_strand, Taken one_strand, Quit]
        \<lparr>oc = Some 3\<rparr>) =
     Inr [False, False, False, True]"
    by code_simp
  show "map_sum id (waits \<circ> final)
     (RunLoop None None scripted ''RunLoop'' OpenChan [Taken two_strands, Quit]
        \<lparr>oc = Some [True, False]\<rparr>) =
     Inr [30 * Millisecond, 5 * Second]"
    by code_simp
  show "map_sum id (waits \<circ> final)
     (RunLoop None None scripted ''RunLoop'' OpenChan [Taken two_strands, Quit]
        \<lparr>oc = Some [False, True]\<rparr>) =
     Inr [30 * Millisecond, 30 * Millisecond]"
    by code_simp
qed

text \<open>
  The second strand of a frame of two strands with a connection that fails its next
  send; and that frame, its first send accepted and its second failed, followed by the
  shutdown signal.
\<close>

theorem pacing_adapts_and_recovers_witness:
  "(1 :: nat) \<noteq> 0 \<and>
   GetStrandData two_strands 0 1 = Inr [pixel 255 10 200 255] \<and>
   build_message RGBA [pixel 255 10 200 255] =
     Inr \<lparr>channel = 0, command = 0, msg_len = 3, data = [255, 10, 200]\<rparr> \<and>
   map_sum id refresh
     (strand_step scripted ''RunLoop'' OpenChan two_strands 0 (1, 1)
        (start_streamer \<lparr>oc = Some [False]\<rparr>)) = Inr (5 * Second) \<and>
   RunLoop_loop scripted ''RunLoop'' OpenChan (map Taken [two_strands] @ [Quit])
     ((start_streamer \<lparr>oc = Some [True, False]\<rparr>)\<lparr>refresh := 30 * Millisecond\<rparr>) =
     Inr (\<lparr>conn = \<lparr>oc = Some []\<rparr>, refresh = 5 * Second,
           waits = [30 * Millisecond, 5 * Second], frames = 1,
           sends = [(0, 0, \<lparr>channel = 0, command = 0, msg_len = 3, data = [255, 10, 200]\<rparr>, True),
                    (0, 1, \<lparr>channel = 0, command = 0, msg_len = 3, data = [255, 10, 200]\<rparr>, False)],
           reported = []\<rparr>, True) \<and>
   (\<exists>st1 new.
      RunLoop_loop scripted ''RunLoop'' OpenChan (map Taken [two_strands])
        ((start_streamer \<lparr>oc = Some [True, False]\<rparr>)\<lparr>refresh := 30 * Millisecond\<rparr>) =
        Inr (st1, False) \<and>
      sends st1 =
        sends ((start_streamer \<lparr>oc = Some [True, False]\<rparr>)\<lparr>refresh := 30 * Millisecond\<rparr>) @ new \<and>
      refresh st1 =
        (if new = []
         then refresh ((start_streamer \<lparr>oc = Some [True, False]\<rparr>)\<lparr>refresh := 30 * Millisecond\<rparr>)
         else if snd (snd (snd (last new))) then 30 * Millisecond else 5 * Second) \<and>
      waits \<lparr>conn = \<lparr>oc = Some ([] :: bool list)\<rparr>, refresh = 5 * Second,
             waits = [30 * Millisecond, 5 * Second], frames = 1,
             sends = [(0, 0, \<lparr>channel = 0, command = 0, msg_len = 3, data = [255, 10, 200]\<rparr>, True),
                      (0, 1, \<lparr>channel = 0, command = 0, msg_len = 3, data = [255, 10, 200]\<rparr>, False)],
             reported = []\<rparr> =
        waits st1 @ [refresh st1])"
proof -
  let ?M = "\<lparr>channel = 0, command = 0, msg_len = 3, data = [255, 10, 200]\<rparr>"
  let ?sA = "start_streamer \<lparr>oc = Some [False]\<rparr>"
  let ?s0 = "(start_streamer \<lparr>oc = Some [True, False]\<rparr>)\<lparr>refresh := 30 * Millisecond\<rparr>"
  let ?s2 = "\<lparr>conn = \<lparr>oc = Some []\<rparr>, refresh = 5 * Second,
           waits = [30 * Millisecond, 5 * Second], frames = 1,
           sends = [(0, 0, ?M, True), (0, 1, ?M, False)], reported = []\<rparr>"
  have n: "(1 :: nat) \<noteq> 0" by simp
  have g: "GetStrandData two_strands 0 1 = Inr [pixel 255 10 200 255]"
    by (simp add: two_strands_def strand_data_one_def)
  have b: "build_message RGBA [pixel 255 10 200 255] = Inr ?M"
    by code_simp
  have f: "fst (Send scripted ''RunLoop'' (conn ?sA) (Some ?M)) \<noteq> None"
    by (simp add: Send_def scripted_def start_streamer_def)
  have r: "RunLoop_loop scripted ''RunLoop'' OpenChan (map Taken [two_strands] @ [Quit]) ?s0 =
             Inr (?s2, True)"
    by code_simp
  note t = pacing_adapts_and_recovers [where oc_Send = scripted and trace = "''RunLoop''"
      and ch = OpenChan and env = two_strands and device = 0 and strand = 1 and strandLen = 1
      and sd = "[pixel 255 10 200 255]" and m = ?M and st = ?sA]
  have x: "map_sum id refresh
     (strand_step scripted ''RunLoop'' OpenChan two_strands 0 (1, 1) ?sA) =
     Inr (if fst (Send scripted ''RunLoop'' (conn ?sA) (Some ?M)) = None
          then 30 * Millisecond else 5 * Second)"
    by (rule t [THEN conjunct2, THEN conjunct1, THEN mp, OF conjI [OF n conjI [OF g b]]])
  have a: "map_sum id refresh
     (strand_step scripted ''RunLoop'' OpenChan two_strands 0 (1, 1) ?sA) = Inr (5 * Second)"
    by (rule x [unfolded if_not_P [OF f]])
  note u = pacing_adapts_and_recovers [where oc_Send = scripted and trace = "''RunLoop''"
      and ch = OpenChan and envs = "[two_strands]" and ev = Quit and st = ?s0]
  note w = u [THEN conjunct2, THEN conjunct2, THEN conjunct2, THEN conjunct2, THEN conjunct2,
      THEN conjunct1, THEN spec, THEN spec, THEN mp, OF r]
  show ?thesis
    by (intro conjI) (rule n g b a r w)+
qed

subsection \<open>The render loop\<close>

lemma render_tick_fields:
  "last_hash (render_tick Md5 test8LED server copied st) = Md5 copied"
  "renders (render_tick Md5 test8LED server copied st) =
     renders st @ (if Md5 copied \<noteq> last_hash st then [copied] else [])"
  by (simp_all add: render_tick_def run_tick_def Let_def)

lemma renders_run_loop:
  "length (renders (fst (run_loop Md5 test8LED server (map Taken snaps) st))) =
     length (renders st) + changes (last_hash st) (map Md5 snaps)"
  by (induction snaps arbitrary: st) (simp_all add: render_tick_fields)

text \<open>
  Claim C3. A tick of \<open>run\<close> calls the renderer exactly when the fingerprint of the
  snapshot it copied differs from the stored one, and never when it is equal; over a
  sequence of ticks the number of calls is the number of fingerprint changes, the first
  counted against the empty initial \<open>last\<close>. Ticks that observe fingerprints A, A, B, B, A
  (A and B different digests, which are never empty) render three times: the first A, B,
  and A again.
\<close>

theorem one_render_per_fingerprint_change:
  "(Md5 copied = last_hash st \<longrightarrow>
      renders (render_tick Md5 test8LED server copied st) = renders st) \<and>
   (Md5 copied \<noteq> last_hash st \<longrightarrow>
      renders (render_tick Md5 test8LED server copied st) = renders st @ [copied]) \<and>
   length (renders (fst (run_loop Md5 test8LED server (map Taken snaps) st))) =
     length (renders st) + changes (last_hash st) (map Md5 snaps) \<and>
   (Md5 a \<noteq> [] \<and> Md5 a \<noteq> Md5 b \<longrightarrow>
      renders (fst (run_loop Md5 test8LED server (map Taken [a, a, b, b, a]) render_start)) =
        [a, b, a] \<and>
      length (renders (fst (run_loop Md5 test8LED server (map Taken [a, a, b, b, a]) render_start))) = 3)"
proof (intro conjI impI)
  show "renders (render_tick Md5 test8LED server copied st) = renders st"
    if "Md5 copied = last_hash st"
    using that by (simp add: render_tick_fields)
  show "renders (render_tick Md5 test8LED server copied st) = renders st @ [copied]"
    if "Md5 copied \<noteq> last_hash st"
    using that by (simp add: render_tick_fields)
  show "length (renders (fst (run_loop Md5 test8LED server (map Taken snaps) st))) =
     length (renders st) + changes (last_hash st) (map Md5 snaps)"
    by (rule renders_run_loop)
  assume h: "Md5 a \<noteq> [] \<and> Md5 a \<noteq> Md5 b"
  then have ba: "Md5 b \<noteq> Md5 a" by auto
  show r: "renders (fst (run_loop Md5 test8LED server (map Taken [a, a, b, b, a]) render_start)) =
        [a, b, a]"
    using h ba by (simp add: render_tick_fields render_start_def)
  show "length (renders (fst (run_loop Md5 test8LED server (map Taken [a, a, b, b, a]) render_start))) = 3"
    by (simp only: r) simp
qed

text \<open>Snapshots 1 and 2 with their one-byte fingerprints.\<close>

theorem one_render_per_fingerprint_change_witness:
  "byte_hash 1 \<noteq> [] \<and> byte_hash 1 \<noteq> byte_hash 2 \<and>
   renders (fst (run_loop byte_hash failing_render ''127.0.0.1:7890'' (map Taken [1, 1, 2, 2, 1])
     render_start)) = [1, 2, 1] \<and>
   byte_hash 1 = last_hash (render_tick byte_hash failing_render ''127.0.0.1:7890'' 1 render_start) \<and>
   renders (render_tick byte_hash failing_render ''127.0.0.1:7890'' 1
              (render_tick byte_hash failing_render ''127.0.0.1:7890'' 1 render_start)) =
     renders (render_tick byte_hash failing_render ''127.0.0.1:7890'' 1 render_start)"
proof -
  let ?st = "render_tick byte_hash failing_render ''127.0.0.1:7890'' 1 render_start"
  have h: "byte_hash 1 \<noteq> [] \<and> byte_hash 1 \<noteq> byte_hash 2"
    by (simp add: byte_hash_def)
  have e: "byte_hash 1 = last_hash ?st"
    by (simp add: render_tick_fields)
  note t = one_render_per_fingerprint_change [where ?Md5.0 = byte_hash and a = 1 and b = 2
      and test8LED = failing_render and server = "''127.0.0.1:7890''" and copied = 1 and st = ?st]
  from t h have r: "renders (fst (run_loop byte_hash failing_render ''127.0.0.1:7890''
      (map Taken [1, 1, 2, 2, 1]) render_start)) = [1, 2, 1]"
    by blast
  from t e have d: "renders (render_tick byte_hash failing_render ''127.0.0.1:7890'' 1 ?st) = renders ?st"
    by blast
  show ?thesis
    by (intro conjI) (rule h [THEN conjunct1] h [THEN conjunct2] r e d)+
qed

subsection \<open>The subscriber\<close>

lemma subscriber_append:
  "subscriber D (evs1 @ evs2) held =
     (if snd (subscriber D evs1 held) then subscriber D evs1 held
      else subscriber D evs2 (fst (subscriber D evs1 held)))"
  by (induction D evs1 held rule: subscriber.induct) simp_all

lemma subscriber_skip:
  assumes "\<And>c. subscriber_step D c msg = c"
  shows "subscriber D (evs1 @ Taken msg # evs2) held = subscriber D (evs1 @ evs2) held"
  using assms by (simp add: subscriber_append)

text \<open>
  Claim C4. A status message whose \<open>Home\<close> flag is unset leaves the cached snapshot as it
  is, also when it arrives after a message of the home portal; only a message with the
  flag set replaces the snapshot, by a deep copy of its status.
\<close>

theorem origin_filtering:
  "(\<not> Home m \<longrightarrow> subscriber_step D held (Some m) = held) \<and>
   (Home m \<longrightarrow> subscriber_step D held (Some m) = D (Status m)) \<and>
   (Home m1 \<and> \<not> Home m2 \<longrightarrow>
      subscriber D [Taken (Some m1), Taken (Some m2)] held = (D (Status m1), False)) \<and>
   (\<not> Home m \<longrightarrow>
      subscriber D (evs1 @ Taken (Some m) # evs2) held = subscriber D (evs1 @ evs2) held)"
proof (intro conjI impI)
  show "subscriber_step D held (Some m) = held" if "\<not> Home m"
    using that by (simp add: subscriber_step_def)
  show "subscriber_step D held (Some m) = D (Status m)" if "Home m"
    using that by (simp add: subscriber_step_def)
  show "subscriber D [Taken (Some m1), Taken (Some m2)] held = (D (Status m1), False)"
    if "Home m1 \<and> \<not> Home m2"
    using that by (simp add: subscriber_step_def)
  show "subscriber D (evs1 @ Taken (Some m) # evs2) held = subscriber D (evs1 @ evs2) held"
    if "\<not> Home m"
    using that by (intro subscriber_skip) (simp add: subscriber_step_def)
qed

text \<open>A home message with status 7, then a message of another portal with status 9.\<close>

theorem origin_filtering_witness:
  "Home \<lparr>Home = True, Status = 7\<rparr> \<and> \<not> Home \<lparr>Home = False, Status = 9\<rparr> \<and>
   subscriber same [Taken (Some \<lparr>Home = True, Status = 7\<rparr>),
                    Taken (Some \<lparr>Home = False, Status = 9\<rparr>)] 0 = (same 7, False) \<and>
   subscriber_step same 7 (Some \<lparr>Home = False, Status = 9\<rparr>) = 7 \<and>
   subscriber_step same 0 (Some \<lparr>Home = True, Status = 7\<rparr>) = same 7"
proof -
  let ?h = "\<lparr>Home = True, Status = 7 :: nat\<rparr>"
  let ?o = "\<lparr>Home = False, Status = 9 :: nat\<rparr>"
  have h: "Home ?h" and o: "\<not> Home ?o" by simp_all
  from origin_filtering [where ?m1.0 = ?h and ?m2.0 = ?o and D = same and held = 0] h o
  have a: "subscriber same [Taken (Some ?h), Taken (Some ?o)] 0 = (same (Status ?h), False)"
    by blast
  from origin_filtering [where m = ?o and D = same and held = 7] o
  have b: "subscriber_step same 7 (Some ?o) = 7" by blast
  from origin_filtering [where m = ?h and D = same and held = 0] h
  have c: "subscriber_step same 0 (Some ?h) = same (Status ?h)" by blast
  from a b c h o show ?thesis by simp
qed

text \<open>
  Claim C10. A nil message received on the status channel is skipped: the cached
  snapshot is unchanged, the goroutine has not returned, and the messages that follow are
  handled as if the nil message had never arrived.
\<close>

theorem nil_message_skipped:
  "subscriber_step D held None = held \<and>
   subscriber D [Taken None] held = (held, False) \<and>
   subscriber D (evs1 @ Taken None # evs2) held = subscriber D (evs1 @ evs2) held"
proof (intro conjI)
  show "subscriber_step D held None = held" by (simp add: subscriber_step_def)
  show "subscriber D [Taken None] held = (held, False)" by (simp add: subscriber_step_def)
  show "subscriber D (evs1 @ Taken None # evs2) held = subscriber D (evs1 @ evs2) held"
    by (intro subscriber_skip) (simp add: subscriber_step_def)
qed

subsection \<open>Startup of RunLoop\<close>


subsection \<open>The device connection\<close>

lemma Send_not_connected:
  "oc fc = None \<Longrightarrow>
   Send oc_Send trace fc m =
     (Some (With ''stack'' trace (errors_New ''fadecandy server not online'')), fc)"
  by (simp add: Send_def)

lemma Send_error_context:
  "fst (Send oc_Send trace fc m) = Some e \<Longrightarrow> err_ctx e = [(''stack'', trace)]"
  by (auto simp: Send_def With_def errors_New_def errors_Wrap_def
      split: option.splits prod.splits)

text \<open>
  Claim C5, as amended. \<open>Send\<close> returns the error "fadecandy server not online" whenever
  the client pointer is nil, which it is before \<open>run\<close> has connected and after the one
  connection attempt of \<open>run\<close> failed, and it leaves the pointer nil; once connected it
  returns "invalid message" for a nil message, the wrapped error of the transport when the
  transport's send fails, and nil when it succeeds. A message that is not nil is handed to
  the transport whatever its length. Every error \<open>Send\<close> returns carries the call stack
  under the key "stack" and nothing else.
\<close>

theorem Send_results:
  "(oc fc = None \<longrightarrow>
      Send oc_Send trace fc m =
        (Some (With ''stack'' trace (errors_New ''fadecandy server not online'')), fc)) \<and>
   (Connect ''tcp'' server NewClient = (Some errGo, c1) \<longrightarrow>
      run_connect NewClient Connect trace server \<lparr>oc = None\<rparr> =
        (\<lparr>oc = None\<rparr>,
         Some (With ''stack'' trace (With ''url'' server (errors_Wrap errGo))))) \<and>
   (oc fc = Some c \<longrightarrow>
      Send oc_Send trace fc None =
        (Some (With ''stack'' trace (errors_New ''invalid message'')), fc)) \<and>
   (oc fc = Some c \<and> oc_Send c msg = (Some errGo, c') \<longrightarrow>
      Send oc_Send trace fc (Some msg) =
        (Some (With ''stack'' trace (errors_Wrap errGo)), fc\<lparr>oc := Some c'\<rparr>)) \<and>
   (oc fc = Some c \<and> oc_Send c msg = (None, c') \<longrightarrow>
      Send oc_Send trace fc (Some msg) = (None, fc\<lparr>oc := Some c'\<rparr>)) \<and>
   (\<forall>e. fst (Send oc_Send trace fc m) = Some e \<longrightarrow> err_ctx e = [(''stack'', trace)])"
proof (intro conjI impI allI)
  show "Send oc_Send trace fc m =
        (Some (With ''stack'' trace (errors_New ''fadecandy server not online'')), fc)"
    if "oc fc = None"
    using that by (rule Send_not_connected)
  show "run_connect NewClient Connect trace server \<lparr>oc = None\<rparr> =
        (\<lparr>oc = None\<rparr>,
         Some (With ''stack'' trace (With ''url'' server (errors_Wrap errGo))))"
    if "Connect ''tcp'' server NewClient = (Some errGo, c1)"
    using that by (simp add: run_connect_def)
  show "Send oc_Send trace fc None =
        (Some (With ''stack'' trace (errors_New ''invalid message'')), fc)"
    if "oc fc = Some c"
    using that by (simp add: Send_def)
  show "Send oc_Send trace fc (Some msg) =
        (Some (With ''stack'' trace (errors_Wrap errGo)), fc\<lparr>oc := Some c'\<rparr>)"
    if "oc fc = Some c \<and> oc_Send c msg = (Some errGo, c')"
    using that by (simp add: Send_def)
  show "Send oc_Send trace fc (Some msg) = (None, fc\<lparr>oc := Some c'\<rparr>)"
    if "oc fc = Some c \<and> oc_Send c msg = (None, c')"
    using that by (simp add: Send_def)
  show "err_ctx e = [(''stack'', trace)]" if "fst (Send oc_Send trace fc m) = Some e" for e
    using that by (rule Send_error_context)
qed

text \<open>
  Claim C5 as stated fails: a connected \<open>Send\<close> hands an empty message to the transport
  and returns nil, not "invalid message".
\<close>

theorem empty_message_counterexample:
  "data (SetLength 0 (NewMessage 0)) = [] \<and>
   Send always_ok ''RunLoop'' \<lparr>oc = Some ()\<rparr> (Some (SetLength 0 (NewMessage 0))) =
     (None, \<lparr>oc = Some ()\<rparr>)"
  by (simp add: Send_def always_ok_def SetLength_def NewMessage_def)

text \<open>
  A refused connection at startup, then a send; and a connected client whose transport
  fails the next send.
\<close>

theorem Send_results_witness:
  "refuse ''tcp'' ''127.0.0.1:7890'' () = (Some ''connection refused'', ()) \<and>
   run_connect () refuse ''run'' ''127.0.0.1:7890'' \<lparr>oc = None\<rparr> =
     (\<lparr>oc = None\<rparr>,
      Some (With ''stack'' ''run'' (With ''url'' ''127.0.0.1:7890'' (errors_Wrap ''connection refused'')))) \<and>
   Send always_ok ''Send'' \<lparr>oc = None\<rparr> (Some (NewMessage 0)) =
     (Some (With ''stack'' ''Send'' (errors_New ''fadecandy server not online'')), \<lparr>oc = None\<rparr>) \<and>
   Send fail_first ''Send'' \<lparr>oc = Some 1\<rparr> None =
     (Some (With ''stack'' ''Send'' (errors_New ''invalid message'')), \<lparr>oc = Some 1\<rparr>) \<and>
   Send fail_first ''Send'' \<lparr>oc = Some 1\<rparr> (Some (NewMessage 0)) =
     (Some (With ''stack'' ''Send'' (errors_Wrap ''write: broken pipe'')), \<lparr>oc = Some 1\<rparr>\<lparr>oc := Some 0\<rparr>) \<and>
   Send fail_first ''Send'' \<lparr>oc = Some 0\<rparr> (Some (NewMessage 0)) =
     (None, \<lparr>oc = Some 0\<rparr>\<lparr>oc := Some 0\<rparr>) \<and>
   err_ctx (With ''stack'' ''Send'' (errors_Wrap ''write: broken pipe'')) = [(''stack'', ''Send'')]"
proof -
  have r: "refuse ''tcp'' ''127.0.0.1:7890'' () = (Some ''connection refused'', ())"
    by (simp add: refuse_def)
  have n: "oc \<lparr>oc = None :: unit option\<rparr> = None" by simp
  have c1: "oc \<lparr>oc = Some (1::nat)\<rparr> = Some 1" by simp
  have c0: "oc \<lparr>oc = Some (0::nat)\<rparr> = Some 0" by simp
  have f1: "fail_first 1 (NewMessage 0) = (Some ''write: broken pipe'', 0)"
    by (simp add: fail_first_def)
  have f0: "fail_first 0 (NewMessage 0) = (None, 0)"
    by (simp add: fail_first_def)
  have a: "run_connect () refuse ''run'' ''127.0.0.1:7890'' \<lparr>oc = None\<rparr> =
     (\<lparr>oc = None\<rparr>,
      Some (With ''stack'' ''run'' (With ''url'' ''127.0.0.1:7890'' (errors_Wrap ''connection refused''))))"
    by (rule Send_results [where Connect = refuse, THEN conjunct2, THEN conjunct1, rule_format, OF r])
  have b: "Send always_ok ''Send'' \<lparr>oc = None\<rparr> (Some (NewMessage 0)) =
     (Some (With ''stack'' ''Send'' (errors_New ''fadecandy server not online'')), \<lparr>oc = None\<rparr>)"
    by (rule Send_results [where oc_Send = always_ok, THEN conjunct1, rule_format, OF n])
  have c: "Send fail_first ''Send'' \<lparr>oc = Some 1\<rparr> None =
     (Some (With ''stack'' ''Send'' (errors_New ''invalid message'')), \<lparr>oc = Some 1\<rparr>)"
    by (rule Send_results [where oc_Send = fail_first, THEN conjunct2, THEN conjunct2, THEN conjunct1, rule_format, OF c1])
  have d: "Send fail_first ''Send'' \<lparr>oc = Some 1\<rparr> (Some (NewMessage 0)) =
     (Some (With ''stack'' ''Send'' (errors_Wrap ''write: broken pipe'')), \<lparr>oc = Some 1\<rparr>\<lparr>oc := Some 0\<rparr>)"
    by (rule Send_results [where oc_Send = fail_first, THEN conjunct2, THEN conjunct2,
          THEN conjunct2, THEN conjunct1, rule_format, OF conjI [OF c1 f1]])
  have e: "Send fail_first ''Send'' \<lparr>oc = Some 0\<rparr> (Some (NewMessage 0)) =
     (None, \<lparr>oc = Some 0\<rparr>\<lparr>oc := Some 0\<rparr>)"
    by (rule Send_results [where oc_Send = fail_first, THEN conjunct2, THEN conjunct2,
          THEN conjunct2, THEN conjunct2, THEN conjunct1, rule_format, OF conjI [OF c0 f0]])
  have "fst (Send fail_first ''Send'' \<lparr>oc = Some 1\<rparr> (Some (NewMessage 0))) =
     Some (With ''stack'' ''Send'' (errors_Wrap ''write: broken pipe''))"
    by (simp only: d fst_conv)
  then have g: "err_ctx (With ''stack'' ''Send'' (errors_Wrap ''write: broken pipe'')) = [(''stack'', ''Send'')]"
    by (rule Send_results [where oc_Send = fail_first, THEN conjunct2, THEN conjunct2,
          THEN conjunct2, THEN conjunct2, THEN conjunct2, rule_format])
  show ?thesis
    by (intro conjI) (rule r a b c d e g)+
qed

subsection \<open>Reporting an error\<close>

text \<open>
  Claim C7, as amended, for an error channel that is not closed. \<open>sendErr\<close> on an open
  channel hands the error to the channel when the channel can take it before 20 ms have
  passed, and otherwise prints it to standard output and returns at 20 ms; on the nil
  channel it returns at once, and the error is neither handed off nor printed. The two
  selects written out in \<open>run\<close> wait up to 100 ms: the one of lines 83 to 87 hands the
  connection error to the channel or prints it to standard error, the one of lines 115 to
  119 hands the renderer's error with the url added to the channel or prints it, without
  the url, to standard error; on the nil channel both print, at 100 ms. Every such call
  returns within its bound.
\<close>

theorem report_returns_in_bound:
  "sendErr NilChan ready err = Inr (NoReport, 0) \<and>
   (ready = Some t \<and> t < 20 * Millisecond \<longrightarrow>
      sendErr OpenChan ready err = Inr (OnChannel err, t)) \<and>
   ((\<forall>t'. ready = Some t' \<longrightarrow> 20 * Millisecond \<le> t') \<longrightarrow>
      sendErr OpenChan ready err = Inr (OnStdout err, 20 * Millisecond)) \<and>
   (ready = Some t \<and> t < 100 * Millisecond \<longrightarrow>
      run_connect_report OpenChan ready err = Inr (OnChannel err, t) \<and>
      run_render_report OpenChan ready server err = Inr (OnChannel (With ''url'' server err), t)) \<and>
   (ch = NilChan \<or> ch = OpenChan \<and> (\<forall>t'. ready = Some t' \<longrightarrow> 100 * Millisecond \<le> t') \<longrightarrow>
      run_connect_report ch ready err = Inr (OnStderr err, 100 * Millisecond) \<and>
      run_render_report ch ready server err = Inr (OnStderr err, 100 * Millisecond)) \<and>
   (ch \<noteq> ClosedChan \<longrightarrow>
      (\<exists>eff d. sendErr ch ready err = Inr (eff, d) \<and> d \<le> 20 * Millisecond) \<and>
      (\<exists>eff d. run_connect_report ch ready err = Inr (eff, d) \<and> d \<le> 100 * Millisecond) \<and>
      (\<exists>eff d. run_render_report ch ready server err = Inr (eff, d) \<and> d \<le> 100 * Millisecond))"
proof (intro conjI impI)
  show "sendErr NilChan ready err = Inr (NoReport, 0)"
    by (simp add: sendErr_def)
  show "sendErr OpenChan ready err = Inr (OnChannel err, t)"
    if "ready = Some t \<and> t < 20 * Millisecond"
    using that by (simp add: sendErr_def select_send_def)
  show "sendErr OpenChan ready err = Inr (OnStdout err, 20 * Millisecond)"
    if "\<forall>t'. ready = Some t' \<longrightarrow> 20 * Millisecond \<le> t'"
    using that by (cases ready) (auto simp: sendErr_def select_send_def)
  show "run_connect_report OpenChan ready err = Inr (OnChannel err, t)"
    if "ready = Some t \<and> t < 100 * Millisecond"
    using that by (simp add: run_connect_report_def select_send_def)
  show "run_render_report OpenChan ready server err = Inr (OnChannel (With ''url'' server err), t)"
    if "ready = Some t \<and> t < 100 * Millisecond"
    using that by (simp add: run_render_report_def select_send_def)
  show "run_connect_report ch ready err = Inr (OnStderr err, 100 * Millisecond)"
    if "ch = NilChan \<or> ch = OpenChan \<and> (\<forall>t'. ready = Some t' \<longrightarrow> 100 * Millisecond \<le> t')"
    using that by (cases ready) (auto simp: run_connect_report_def select_send_def)
  show "run_render_report ch ready server err = Inr (OnStderr err, 100 * Millisecond)"
    if "ch = NilChan \<or> ch = OpenChan \<and> (\<forall>t'. ready = Some t' \<longrightarrow> 100 * Millisecond \<le> t')"
    using that by (cases ready) (auto simp: run_render_report_def select_send_def)
  show "\<exists>eff d. sendErr ch ready err = Inr (eff, d) \<and> d \<le> 20 * Millisecond"
    if "ch \<noteq> ClosedChan"
    using that by (cases ch; cases ready) (auto simp: sendErr_def select_send_def Millisecond_def)
  show "\<exists>eff d. run_connect_report ch ready err = Inr (eff, d) \<and> d \<le> 100 * Millisecond"
    if "ch \<noteq> ClosedChan"
    using that by (cases ch; cases ready) (auto simp: run_connect_report_def select_send_def)
  show "\<exists>eff d. run_render_report ch ready server err = Inr (eff, d) \<and> d \<le> 100 * Millisecond"
    if "ch \<noteq> ClosedChan"
    using that by (cases ch; cases ready) (auto simp: run_render_report_def select_send_def)
qed

text \<open>
  Claim C7 as stated fails: with a nil error channel no handoff is attempted and nothing
  is written to the fallback stream.
\<close>

theorem nil_channel_counterexample:
  "sendErr NilChan None (errors_New ''no strands'') = Inr (NoReport, 0)"
  by (simp add: sendErr_def)

text \<open>
  A reader that takes the error after 5 ms, one that would take it after 50 ms, one that
  never does, and the nil channel.
\<close>

theorem report_returns_in_bound_witness:
  "Some (5 * Millisecond) = Some (5 * Millisecond) \<and> 5 * Millisecond < 20 * Millisecond \<and>
   sendErr OpenChan (Some (5 * Millisecond)) (errors_New ''no strands'') =
     Inr (OnChannel (errors_New ''no strands''), 5 * Millisecond) \<and>
   sendErr OpenChan (Some (50 * Millisecond)) (errors_New ''no strands'') =
     Inr (OnStdout (errors_New ''no strands''), 20 * Millisecond) \<and>
   sendErr OpenChan None (errors_New ''no strands'') =
     Inr (OnStdout (errors_New ''no strands''), 20 * Millisecond) \<and>
   run_connect_report OpenChan (Some (50 * Millisecond)) (errors_Wrap ''connection refused'') =
     Inr (OnChannel (errors_Wrap ''connection refused''), 50 * Millisecond) \<and>
   run_render_report OpenChan (Some (50 * Millisecond)) ''127.0.0.1:7890''
       (errors_New ''render failed'') =
     Inr (OnChannel (With ''url'' ''127.0.0.1:7890'' (errors_New ''render failed'')),
          50 * Millisecond) \<and>
   run_render_report OpenChan (Some (100 * Millisecond)) ''127.0.0.1:7890''
       (errors_New ''render failed'') =
     Inr (OnStderr (errors_New ''render failed''), 100 * Millisecond) \<and>
   run_render_report NilChan (Some 0) ''127.0.0.1:7890'' (errors_New ''render failed'') =
     Inr (OnStderr (errors_New ''render failed''), 100 * Millisecond) \<and>
   run_connect_report NilChan (Some 0) (errors_Wrap ''connection refused'') =
     Inr (OnStderr (errors_Wrap ''connection refused''), 100 * Millisecond) \<and>
   OpenChan \<noteq> ClosedChan \<and>
   (\<exists>eff d. sendErr OpenChan None (errors_New ''no strands'') = Inr (eff, d) \<and>
      d \<le> 20 * Millisecond)"
proof -
  have e: "Some (5 * Millisecond) = Some (5 * Millisecond)" by simp
  have l5: "5 * Millisecond < 20 * Millisecond" by (simp add: Millisecond_def)
  have l50: "50 * Millisecond < 100 * Millisecond" by (simp add: Millisecond_def)
  have g50: "\<forall>t'. Some (50 * Millisecond) = Some t' \<longrightarrow> 20 * Millisecond \<le> t'"
    by (simp add: Millisecond_def)
  have g100: "\<forall>t'. Some (100 * Millisecond) = Some t' \<longrightarrow> 100 * Millisecond \<le> t'"
    by simp
  have gN20: "\<forall>t'. (None :: Duration option) = Some t' \<longrightarrow> 20 * Millisecond \<le> t'"
    by simp
  have o: "OpenChan \<noteq> ClosedChan" by simp
  have a: "sendErr OpenChan (Some (5 * Millisecond)) (errors_New ''no strands'') =
     Inr (OnChannel (errors_New ''no strands''), 5 * Millisecond)"
    by (rule report_returns_in_bound [THEN conjunct2, THEN conjunct1, rule_format,
          OF conjI [OF e l5]])
  have b: "sendErr OpenChan (Some (50 * Millisecond)) (errors_New ''no strands'') =
     Inr (OnStdout (errors_New ''no strands''), 20 * Millisecond)"
    by (rule report_returns_in_bound [THEN conjunct2, THEN conjunct2, THEN conjunct1,
          THEN mp, OF g50])
  have c: "sendErr OpenChan None (errors_New ''no strands'') =
     Inr (OnStdout (errors_New ''no strands''), 20 * Millisecond)"
    by (rule report_returns_in_bound [THEN conjunct2, THEN conjunct2, THEN conjunct1,
          THEN mp, OF gN20])
  note d = report_returns_in_bound [where ready = "Some (50 * Millisecond)"
      and t = "50 * Millisecond", THEN conjunct2, THEN conjunct2, THEN conjunct2,
      THEN conjunct1, THEN mp, OF conjI [OF refl l50]]
  have d1: "run_connect_report OpenChan (Some (50 * Millisecond)) (errors_Wrap ''connection refused'') =
     Inr (OnChannel (errors_Wrap ''connection refused''), 50 * Millisecond)"
    by (rule d [THEN conjunct1])
  have d2: "run_render_report OpenChan (Some (50 * Millisecond)) ''127.0.0.1:7890''
       (errors_New ''render failed'') =
     Inr (OnChannel (With ''url'' ''127.0.0.1:7890'' (errors_New ''render failed'')),
          50 * Millisecond)"
    by (rule d [THEN conjunct2])
  note sO = report_returns_in_bound [where ch = OpenChan, THEN conjunct2, THEN conjunct2,
      THEN conjunct2, THEN conjunct2, THEN conjunct1, THEN mp]
  note sN = report_returns_in_bound [where ch = NilChan, THEN conjunct2, THEN conjunct2,
      THEN conjunct2, THEN conjunct2, THEN conjunct1, THEN mp]
  have f: "run_render_report OpenChan (Some (100 * Millisecond)) ''127.0.0.1:7890''
       (errors_New ''render failed'') =
     Inr (OnStderr (errors_New ''render failed''), 100 * Millisecond)"
    by (rule sO [OF disjI2, OF conjI [OF refl g100], THEN conjunct2])
  have g: "run_render_report NilChan (Some 0) ''127.0.0.1:7890'' (errors_New ''render failed'') =
     Inr (OnStderr (errors_New ''render failed''), 100 * Millisecond)"
    by (rule sN [OF disjI1, OF refl, THEN conjunct2])
  have h: "run_connect_report NilChan (Some 0) (errors_Wrap ''connection refused'') =
     Inr (OnStderr (errors_Wrap ''connection refused''), 100 * Millisecond)"
    by (rule sN [OF disjI1, OF refl, THEN conjunct1])
  have i: "\<exists>eff d. sendErr OpenChan None (errors_New ''no strands'') = Inr (eff, d) \<and>
      d \<le> 20 * Millisecond"
    by (rule report_returns_in_bound [THEN conjunct2, THEN conjunct2, THEN conjunct2,
          THEN conjunct2, THEN conjunct2, THEN mp, OF o, THEN conjunct1])
  show ?thesis
    by (intro conjI) (rule e l5 a b c d1 d2 f g h o i)+
qed

subsection \<open>Shutdown\<close>

text \<open>
  Claim C9 at a failing schedule. \<open>run\<close> takes a tick whose render fails; the shutdown
  signal is raised; \<open>RunLoop\<close> takes its \<open>quitC\<close> case and returns, which closes the error
  channel; \<open>run\<close> then reaches its select of lines 115 to 119 and sends on the closed
  channel. The same happens without any shutdown when \<open>RunLoop\<close> returned at startup.
\<close>

theorem send_on_closed_error_channel:
  "map_option observe
     (run_schedule same byte_hash failing_render ''127.0.0.1:7890''
        [RunLoopStart None, RunTimer, CloseQuit, RunLoopQuit, RunSelectErr None]
        (init_system 0)) =
     Some (ClosedChan, ClosedChan, Panicked SendOnClosedChannel, Returned) \<and>
   map_option observe
     (run_schedule same byte_hash failing_render ''127.0.0.1:7890''
        [RunLoopStart (Some (errors_New ''no sequence runner'')), RunTimer, RunSelectErr None]
        (init_system 0)) =
     Some (OpenChan, ClosedChan, Panicked SendOnClosedChannel, Returned)"
  by code_simp

end
